theory Spec2Isabelle
  imports Main "HOL-Library.Monad_Syntax"
begin

section \<open>Constants and data of the game (main.go)\<close>

text \<open>
  The program modelled is main.go with the SSH server: two connections share one
  session; standalone mode is the same model with the nil session. The game constants
  follow. Marks, the draw outcome and the empty cell are Go strings. Durations are
  counted in nanoseconds, as \<open>time.Duration\<close> does. The Go \<open>int\<close> values of the
  program (cursor, turn, player count) are integers here, with the wrap-around written
  out where the source can overflow.
\<close>

definition PlayerX :: string where "PlayerX = ''X''"
definition PlayerO :: string where "PlayerO = ''O''"
definition Draw :: string where "Draw = ''draw''"
definition Empty :: string where "Empty = ''''"
definition BoardSize :: int where "BoardSize = 3"
definition TickerInterval :: int where "TickerInterval = 100 * 1000000"
definition DisconnectTimeout :: int where "DisconnectTimeout = 5 * 1000000000"

lemmas consts_defs = PlayerX_def PlayerO_def Draw_def Empty_def

text \<open>\<open>type coord struct { row int; col int }\<close>\<close>

record coord =
  row :: int
  col :: int

text \<open>
  A board is a \<open>[][]string\<close>. A slice of coordinates is a list; the nil slice is the
  empty list (the program never builds an empty slice that is not nil).
\<close>

type_synonym board = "string list list"

subsection \<open>Indexing, with the run-time panic made explicit\<close>

text \<open>
  Go panics on an index out of range. In every function below the result \<open>None\<close>
  stands for that panic.
\<close>

definition idx :: "'a list \<Rightarrow> int \<Rightarrow> 'a option" where
  "idx xs i = (if 0 \<le> i \<and> i < int (length xs) then Some (xs ! nat i) else None)"

text \<open>\<open>board[y][x]\<close> read.\<close>

definition cellAt :: "board \<Rightarrow> int \<Rightarrow> int \<Rightarrow> string option" where
  "cellAt b y x = Option.bind (idx b y) (\<lambda>r. idx r x)"

text \<open>\<open>board[y][x] = v\<close> write (the rows of a board are never aliased).\<close>

definition setCell :: "board \<Rightarrow> int \<Rightarrow> int \<Rightarrow> string \<Rightarrow> board option" where
  "setCell b y x v =
     Option.bind (idx b y) (\<lambda>r.
     Option.bind (idx r x) (\<lambda>_.
       Some (b[nat y := r[nat x := v]])))"

subsection \<open>Arithmetic on the Go type int\<close>

text \<open>
  A Go \<open>int\<close> is a signed 64-bit integer on the platforms of the program, and its
  arithmetic wraps around. \<open>wrap64\<close> is the value that Go keeps of a result. It is
  written out where the source can overflow, which is the subtraction
  \<open>1 - CurrentPlayer\<close>. The steps of the cursor are guarded by comparisons with 0 and
  with the lengths of the board, so they do not leave the range.
\<close>

definition wrap64 :: "int \<Rightarrow> int" where
  "wrap64 x = (x + 2 ^ 63) mod 2 ^ 64 - 2 ^ 63"

subsection \<open>createEmptyBoard and copyBoard\<close>

definition createEmptyBoard :: board where
  "createEmptyBoard = replicate (nat BoardSize) (replicate (nat BoardSize) Empty)"

definition copyBoard :: "board \<Rightarrow> board" where
  "copyBoard b = map (\<lambda>r. map (\<lambda>c. c) r) b"

section \<open>Board engine: checkWinner and isDraw\<close>

definition mk :: "int \<Rightarrow> int \<Rightarrow> coord" where
  "mk y x = \<lparr>row = y, col = x\<rparr>"

text \<open>
  The condition \<open>board[a] == player && board[b] == player && board[c] == player\<close>,
  evaluated left to right with short circuit.
\<close>

definition eq3 :: "board \<Rightarrow> string \<Rightarrow> coord \<Rightarrow> coord \<Rightarrow> coord \<Rightarrow> bool option" where
  "eq3 b p c1 c2 c3 =
     Option.bind (cellAt b (row c1) (col c1)) (\<lambda>v1.
       if v1 \<noteq> p then Some False else
     Option.bind (cellAt b (row c2) (col c2)) (\<lambda>v2.
       if v2 \<noteq> p then Some False else
     Option.bind (cellAt b (row c3) (col c3)) (\<lambda>v3.
       Some (v3 = p))))"

text \<open>
  The loop \<open>for y := 0; y < BoardSize; y++\<close> over the rows, run on the list of the
  remaining values of \<open>y\<close>; the empty result means that the loop fell through.
\<close>

fun rowScan :: "board \<Rightarrow> string \<Rightarrow> int list \<Rightarrow> coord list option" where
  "rowScan b p [] = Some []"
| "rowScan b p (y # ys) =
     Option.bind (eq3 b p (mk y 0) (mk y 1) (mk y 2)) (\<lambda>hit.
       if hit then Some [mk y 0, mk y 1, mk y 2] else rowScan b p ys)"

text \<open>The loop \<open>for x := 0; x < BoardSize; x++\<close> over the columns.\<close>

fun colScan :: "board \<Rightarrow> string \<Rightarrow> int list \<Rightarrow> coord list option" where
  "colScan b p [] = Some []"
| "colScan b p (x # xs) =
     Option.bind (eq3 b p (mk 0 x) (mk 1 x) (mk 2 x)) (\<lambda>hit.
       if hit then Some [mk 0 x, mk 1 x, mk 2 x] else colScan b p xs)"

definition loopRange :: "int list" where
  "loopRange = map int [0 ..< nat BoardSize]"

definition checkWinner :: "board \<Rightarrow> string \<Rightarrow> coord list option" where
  "checkWinner b p =
     Option.bind (rowScan b p loopRange) (\<lambda>rs.
       if rs \<noteq> [] then Some rs else
     Option.bind (colScan b p loopRange) (\<lambda>cs.
       if cs \<noteq> [] then Some cs else
     Option.bind (eq3 b p (mk 0 0) (mk 1 1) (mk 2 2)) (\<lambda>d1.
       if d1 then Some [mk 0 0, mk 1 1, mk 2 2] else
     Option.bind (eq3 b p (mk 0 2) (mk 1 1) (mk 2 0)) (\<lambda>d2.
       if d2 then Some [mk 0 2, mk 1 1, mk 2 0] else Some []))))"

text \<open>isDraw: no cell of any row is the empty string.\<close>

definition isDraw :: "board \<Rightarrow> bool" where
  "isDraw b = list_all (\<lambda>r. list_all (\<lambda>cell. cell \<noteq> '''') r) b"

subsection \<open>The win check as the specification words it\<close>

text \<open>
  The eight lines in the fixed scan order: rows top to bottom, columns left to right,
  the diagonal from the top left, the diagonal from the top right.
\<close>

definition scanOrder :: "coord list list" where
  "scanOrder =
     [[mk 0 0, mk 0 1, mk 0 2], [mk 1 0, mk 1 1, mk 1 2], [mk 2 0, mk 2 1, mk 2 2],
      [mk 0 0, mk 1 0, mk 2 0], [mk 0 1, mk 1 1, mk 2 1], [mk 0 2, mk 1 2, mk 2 2],
      [mk 0 0, mk 1 1, mk 2 2],
      [mk 0 2, mk 1 1, mk 2 0]]"

definition uniformly :: "board \<Rightarrow> string \<Rightarrow> coord list \<Rightarrow> bool" where
  "uniformly b p l = list_all (\<lambda>c. cellAt b (row c) (col c) = Some p) l"

definition spec_evaluateOutcome :: "board \<Rightarrow> string \<Rightarrow> coord list option" where
  "spec_evaluateOutcome b p = find (uniformly b p) scanOrder"

definition is3x3 :: "board \<Rightarrow> bool" where
  "is3x3 b = (length b = 3 \<and> list_all (\<lambda>r. length r = 3) b)"


section \<open>The shared session and the model of one connection\<close>

text \<open>
  \<open>GameSession\<close> is the state that the two connections of a match share through a
  pointer; its mutex is not a field of the model: what a handler does while it holds the
  lock is one step of a run (see the runs of the server below). \<open>CurrentPlayer\<close> is
  0 for X and 1 for O.
\<close>

record GameSession =
  Board :: board
  CurrentPlayer :: int
  Winner :: string
  WinningCells :: "coord list"
  PlayerCount :: int
  PlayerDisconnected :: bool
  RestartRequested :: bool

text \<open>
  A \<open>*GameSession\<close> is an address into a store of sessions. Go pointers never dangle,
  so the store is total.
\<close>

type_synonym addr = nat
type_synonym heap = "addr \<Rightarrow> GameSession"

text \<open>
  The struct \<open>model\<close>. The field \<open>gameSession\<close> is \<open>None\<close> for the nil pointer
  (standalone mode). \<open>disconnectTimer\<close> is a \<open>time.Time\<close>, counted in nanoseconds
  since the zero instant of \<open>time.Time\<close>.
\<close>

record model =
  board :: board
  cursorX :: int
  cursorY :: int
  currentPlayer :: string
  winner :: string
  winningCells :: "coord list"
  playerSymbol :: string
  isMyTurn :: bool
  waitingForPlayer :: bool
  gameSession :: "addr option"
  disconnectTimer :: int

definition initialModel :: model where
  "initialModel =
     \<lparr>board = createEmptyBoard, cursorX = 0, cursorY = 0, currentPlayer = PlayerX,
      winner = '''', winningCells = [], playerSymbol = '''', isMyTurn = False,
      waitingForPlayer = False, gameSession = None, disconnectTimer = 0\<rparr>"

definition resetGame :: "model \<Rightarrow> heap \<Rightarrow> model \<times> heap" where
  "resetGame m h =
     (let m1 = m\<lparr>board := createEmptyBoard, currentPlayer := PlayerX, winner := Empty,
                  winningCells := [], cursorX := 0, cursorY := 0\<rparr>;
          m2 = m1\<lparr>isMyTurn := (playerSymbol m1 = currentPlayer m1), disconnectTimer := 0\<rparr>
      in case gameSession m2 of
           None \<Rightarrow> (m2, h)
         | Some a \<Rightarrow>
             (m2, h(a := (h a)\<lparr>Board := createEmptyBoard, CurrentPlayer := 0,
                                Winner := Empty, WinningCells := [],
                                PlayerDisconnected := False,
                                RestartRequested := False\<rparr>)))"

definition switchPlayer :: "model \<Rightarrow> model" where
  "switchPlayer m =
     (if currentPlayer m = PlayerX then m\<lparr>currentPlayer := PlayerO\<rparr>
      else m\<lparr>currentPlayer := PlayerX\<rparr>)"

subsection \<open>Time\<close>

text \<open>
  \<open>time.Since(t)\<close> is \<open>time.Now().Sub(t)\<close>; \<open>Sub\<close> saturates at the least and the
  greatest \<open>Duration\<close> (a signed 64-bit count of nanoseconds). The reading of the clock
  is an input of the step that reads it.
\<close>

definition IsZero :: "int \<Rightarrow> bool" where
  "IsZero t = (t = 0)"

definition maxDuration :: int where "maxDuration = 2 ^ 63 - 1"
definition minDuration :: int where "minDuration = - (2 ^ 63)"

definition Since :: "int \<Rightarrow> int \<Rightarrow> int" where
  "Since now t =
     (let d = now - t
      in if d > maxDuration then maxDuration else if d < minDuration then minDuration else d)"

subsection \<open>Update\<close>

text \<open>
  The messages of the program: a tick, which carries the value that \<open>time.Now()\<close>
  returns while the tick is handled, a key press with the string of the key, and any
  other message of the runtime. The commands that Update returns: none, \<open>tea.Quit\<close>,
  \<open>tea.ClearScreen\<close>, and the next \<open>tea.Tick\<close>.
\<close>

datatype msg = TickMsg int | KeyMsg string | OtherMsg

datatype cmd = NoCmd | Quit | ClearScreen | Tick

text \<open>
  The case \<open>tickMsg\<close> of Update. Its first part copies the shared state into the
  model: \<open>turnSymbol\<close> is the symbol that the tick derives from \<open>CurrentPlayer\<close>,
  \<open>sync\<close> the model after the copy.
\<close>

definition turnSymbol :: "GameSession \<Rightarrow> string" where
  "turnSymbol s = (if CurrentPlayer s = 0 then PlayerX else PlayerO)"

definition sync :: "model \<Rightarrow> GameSession \<Rightarrow> model" where
  "sync m s =
     (let m1 = m\<lparr>board := copyBoard (Board s), currentPlayer := turnSymbol s,
                  winner := Winner s, winningCells := WinningCells s\<rparr>
      in m1\<lparr>isMyTurn := (playerSymbol m1 = currentPlayer m1),
             waitingForPlayer := (PlayerCount s < 2)\<rparr>)"

definition onTick :: "int \<Rightarrow> model \<Rightarrow> heap \<Rightarrow> (model \<times> heap \<times> cmd) option" where
  "onTick now m h =
     (case gameSession m of
        None \<Rightarrow> Some (m, h, Tick)
      | Some a \<Rightarrow>
          (let s = h a; m2 = sync m s
           in if RestartRequested s then
                Some (m2\<lparr>winner := Winner s, winningCells := WinningCells s\<rparr>, h, ClearScreen)
              else if PlayerDisconnected s then
                (if IsZero (disconnectTimer m2) then Some (m2\<lparr>disconnectTimer := now\<rparr>, h, Tick)
                 else if Since now (disconnectTimer m2) > DisconnectTimeout then Some (m2, h, Quit)
                 else Some (m2, h, Tick))
              else Some (m2, h, Tick)))"

text \<open>The cursor keys.\<close>

definition onUp :: "model \<Rightarrow> model" where
  "onUp m = (if cursorY m > 0 then m\<lparr>cursorY := cursorY m - 1\<rparr> else m)"

definition onDown :: "model \<Rightarrow> model option" where
  "onDown m =
     (if cursorY m < int (length (board m)) - 1 then
        (let m1 = m\<lparr>cursorY := cursorY m + 1\<rparr>
         in Option.bind (idx (board m1) (cursorY m1)) (\<lambda>r.
              if cursorX m1 \<ge> int (length r) then
                Option.bind (idx (board m1) (cursorY m1)) (\<lambda>r'.
                  Some (m1\<lparr>cursorX := int (length r') - 1\<rparr>))
              else Some m1))
      else Some m)"

definition onRight :: "model \<Rightarrow> model option" where
  "onRight m =
     Option.bind (idx (board m) (cursorY m)) (\<lambda>r.
       if cursorX m < int (length r) - 1 then Some (m\<lparr>cursorX := cursorX m + 1\<rparr>)
       else Some m)"

definition onLeft :: "model \<Rightarrow> model" where
  "onLeft m = (if cursorX m > 0 then m\<lparr>cursorX := cursorX m - 1\<rparr> else m)"

text \<open>
  The key \<open>r\<close>: the reset, then the request flag for the other player. The handler
  takes the lock of the session twice: inside resetGame, and again to set the flag
  (\<open>raiseRestart\<close>). \<open>onRestart\<close> is the handler when nothing happens to the session
  between the two.
\<close>

definition raiseRestart :: "model \<Rightarrow> heap \<Rightarrow> heap" where
  "raiseRestart m h =
     (case gameSession m of
        None \<Rightarrow> h
      | Some a \<Rightarrow> h(a := (h a)\<lparr>RestartRequested := True\<rparr>))"

definition onRestart :: "model \<Rightarrow> heap \<Rightarrow> model \<times> heap \<times> cmd" where
  "onRestart m h =
     (case resetGame m h of (m1, h1) \<Rightarrow> (m1, raiseRestart m1 h1, ClearScreen))"

text \<open>
  What follows the write of the mark into the shared board, inside the lock of the
  session: the win check for the symbol of this player, the draw check, the turn.
\<close>

definition settle :: "GameSession \<Rightarrow> string \<Rightarrow> GameSession option" where
  "settle s mark =
     Option.bind (checkWinner (Board s) mark) (\<lambda>cells.
       if cells \<noteq> [] then Some (s\<lparr>Winner := mark, WinningCells := cells\<rparr>)
       else if isDraw (Board s) then Some (s\<lparr>Winner := Draw\<rparr>)
       else Some (s\<lparr>CurrentPlayer := wrap64 (1 - CurrentPlayer s)\<rparr>))"

text \<open>The same in standalone mode, on the model itself.\<close>

definition settleLocal :: "model \<Rightarrow> model option" where
  "settleLocal m =
     Option.bind (checkWinner (board m) (currentPlayer m)) (\<lambda>cells.
       if cells \<noteq> [] then Some (m\<lparr>winner := currentPlayer m, winningCells := cells\<rparr>)
       else if isDraw (board m) then Some (m\<lparr>winner := Draw\<rparr>)
       else Some (switchPlayer m))"

text \<open>The keys \<open>enter\<close> and space.\<close>

definition onPlace :: "model \<Rightarrow> heap \<Rightarrow> (model \<times> heap \<times> cmd) option" where
  "onPlace m h =
     (if winner m \<noteq> Empty then Some (m, h, NoCmd)
      else if gameSession m \<noteq> None \<and> \<not> isMyTurn m then Some (m, h, NoCmd)
      else
        Option.bind (cellAt (board m) (cursorY m) (cursorX m)) (\<lambda>c.
          if c \<noteq> Empty then Some (m, h, NoCmd)
          else
            (case gameSession m of
               Some a \<Rightarrow>
                 Option.bind (setCell (board m) (cursorY m) (cursorX m) (playerSymbol m)) (\<lambda>b1.
                 Option.bind (setCell (Board (h a)) (cursorY m) (cursorX m) (playerSymbol m)) (\<lambda>sb.
                 Option.bind (settle ((h a)\<lparr>Board := sb\<rparr>) (playerSymbol m)) (\<lambda>s'.
                   Some (m\<lparr>board := b1\<rparr>, h(a := s'), NoCmd))))
             | None \<Rightarrow>
                 Option.bind (setCell (board m) (cursorY m) (cursorX m) (currentPlayer m)) (\<lambda>b1.
                 Option.bind (settleLocal (m\<lparr>board := b1\<rparr>)) (\<lambda>m'.
                   Some (m', h, NoCmd))))))"

definition onKey :: "string \<Rightarrow> model \<Rightarrow> heap \<Rightarrow> (model \<times> heap \<times> cmd) option" where
  "onKey k m h =
     (if k = ''ctrl+c'' \<or> k = ''q'' then Some (m, h, Quit)
      else if k = ''up'' \<or> k = ''k'' then Some (onUp m, h, NoCmd)
      else if k = ''down'' \<or> k = ''j'' then map_option (\<lambda>m'. (m', h, NoCmd)) (onDown m)
      else if k = ''right'' \<or> k = ''l'' then map_option (\<lambda>m'. (m', h, NoCmd)) (onRight m)
      else if k = ''left'' \<or> k = ''h'' then Some (onLeft m, h, NoCmd)
      else if k = ''r'' then Some (onRestart m h)
      else if k = ''enter'' \<or> k = '' '' then onPlace m h
      else Some (m, h, NoCmd))"

definition Update :: "msg \<Rightarrow> model \<Rightarrow> heap \<Rightarrow> (model \<times> heap \<times> cmd) option" where
  "Update ms m h =
     (case ms of
        TickMsg now \<Rightarrow> onTick now m h
      | KeyMsg k \<Rightarrow> onKey k m h
      | OtherMsg \<Rightarrow> Some (m, h, NoCmd))"

section \<open>The server: pairing of the connections\<close>

text \<open>
  The state of the server process: the store of sessions with the next address that
  \<open>&GameSession{...}\<close> returns, the waiting session of the session manager, the
  models of the connections in the order in which they arrived, and the connections
  whose handler of the key \<open>r\<close> is between its two locks.
\<close>

record world =
  sessions :: heap
  allocated :: nat
  waitingSession :: "addr option"
  views :: "model list"
  raising :: "nat list"

definition zeroSession :: GameSession where
  "zeroSession =
     \<lparr>Board = [], CurrentPlayer = 0, Winner = '''', WinningCells = [], PlayerCount = 0,
      PlayerDisconnected = False, RestartRequested = False\<rparr>"

definition handleSSHSession :: "world \<Rightarrow> model \<times> world" where
  "handleSSHSession w =
     (case waitingSession w of
        None \<Rightarrow>
          (let a = allocated w;
               s = zeroSession\<lparr>Board := createEmptyBoard, CurrentPlayer := 0, PlayerCount := 1\<rparr>
           in (initialModel\<lparr>playerSymbol := PlayerX, isMyTurn := True,
                            waitingForPlayer := True, gameSession := Some a\<rparr>,
               w\<lparr>sessions := (sessions w)(a := s), allocated := Suc a,
                 waitingSession := Some a\<rparr>))
      | Some a \<Rightarrow>
          (initialModel\<lparr>playerSymbol := PlayerO, isMyTurn := False,
                        waitingForPlayer := False, gameSession := Some a\<rparr>,
           w\<lparr>sessions := (sessions w)(a := (sessions w a)\<lparr>PlayerCount := 2\<rparr>),
             waitingSession := None\<rparr>))"

definition world0 :: world where
  "world0 = \<lparr>sessions = (\<lambda>_. zeroSession), allocated = 0, waitingSession = None, views = [],
             raising = []\<rparr>"

subsection \<open>Runs of the server\<close>

text \<open>
  What can happen to the server: a connection arrives, the model of connection \<open>i\<close>
  handles a message, the connection \<open>i\<close> ends (the goroutine of handleSSHSession then
  marks the session). A step is what happens to the session under one hold of its
  lock, with the work on the model around it. Every handler holds the lock at most once,
  but for the key \<open>r\<close>, which holds it twice: \<open>BeginRestart i\<close> runs the handler
  of connection \<open>i\<close> to the end of resetGame, \<open>EndRestart i\<close> runs the rest of it,
  and other connections can step in between; until then connection \<open>i\<close> handles no
  other message. \<open>Deliver i (KeyMsg ''r'')\<close> is the two with nothing in between. A step
  that panics has no successor; an event that a connection cannot take changes nothing.
\<close>

datatype event = Connect | Deliver nat msg | Closed nat | BeginRestart nat | EndRestart nat

definition markDisconnected :: "model \<Rightarrow> heap \<Rightarrow> heap" where
  "markDisconnected m h =
     (case gameSession m of
        None \<Rightarrow> h
      | Some a \<Rightarrow> h(a := (h a)\<lparr>PlayerDisconnected := True\<rparr>))"

fun step :: "event \<Rightarrow> world \<Rightarrow> world option" where
  "step Connect w =
     (case handleSSHSession w of (m, w') \<Rightarrow> Some (w'\<lparr>views := views w' @ [m]\<rparr>))"
| "step (Deliver i ms) w =
     (if i < length (views w) \<and> i \<notin> set (raising w) then
        map_option (\<lambda>(m', h', c). w\<lparr>sessions := h', views := (views w)[i := m']\<rparr>)
          (Update ms (views w ! i) (sessions w))
      else Some w)"
| "step (Closed i) w =
     (if i < length (views w) then
        Some (w\<lparr>sessions := markDisconnected (views w ! i) (sessions w)\<rparr>)
      else Some w)"
| "step (BeginRestart i) w =
     (if i < length (views w) \<and> i \<notin> set (raising w) then
        (case resetGame (views w ! i) (sessions w) of (m1, h1) \<Rightarrow>
           Some (w\<lparr>sessions := h1, views := (views w)[i := m1], raising := i # raising w\<rparr>))
      else Some w)"
| "step (EndRestart i) w =
     (if i < length (views w) \<and> i \<in> set (raising w) then
        Some (w\<lparr>sessions := raiseRestart (views w ! i) (sessions w),
                raising := removeAll i (raising w)\<rparr>)
      else Some w)"

fun run :: "event list \<Rightarrow> world \<Rightarrow> world option" where
  "run [] w = Some w"
| "run (e # es) w = Option.bind (step e w) (run es)"


subsection \<open>The loop of ticks of one connection\<close>

text \<open>
  The tick handler returns the next \<open>tea.Tick\<close> to go on; the runtime ends the
  program of the connection on \<open>tea.Quit\<close>. \<open>tickLoop\<close> runs the ticks of one model
  on the successive readings of the clock, with no other event in between, until a tick
  does not ask for the next one.
\<close>

datatype loopResult = Ticking model | Ended int cmd model | Panicked

fun tickLoop :: "int list \<Rightarrow> model \<Rightarrow> heap \<Rightarrow> loopResult" where
  "tickLoop [] m h = Ticking m"
| "tickLoop (t # ts) m h =
     (case Update (TickMsg t) m h of
        None \<Rightarrow> Panicked
      | Some (m', h', c) \<Rightarrow> if c = Tick then tickLoop ts m' h' else Ended t c m')"

text \<open>
  A tick observes the disconnect when it reaches the test of \<open>PlayerDisconnected\<close> and
  finds it true: the model has a session and no restart request is pending (the tick
  returns before the test otherwise).
\<close>

definition observesDisconnect :: "model \<Rightarrow> heap \<Rightarrow> bool" where
  "observesDisconnect m h =
     (case gameSession m of
        None \<Rightarrow> False
      | Some a \<Rightarrow> \<not> RestartRequested (h a) \<and> PlayerDisconnected (h a))"

subsection \<open>Predicates on boards and abbreviations for events\<close>

definition marksOK :: "board \<Rightarrow> bool" where
  "marksOK b = list_all (list_all (\<lambda>c. c = Empty \<or> c = PlayerX \<or> c = PlayerO)) b"

abbreviation pressEnter :: "nat \<Rightarrow> event" where
  "pressEnter i \<equiv> Deliver i (KeyMsg ''enter'')"

abbreviation pressRight :: "nat \<Rightarrow> event" where
  "pressRight i \<equiv> Deliver i (KeyMsg ''right'')"

abbreviation pressLeft :: "nat \<Rightarrow> event" where
  "pressLeft i \<equiv> Deliver i (KeyMsg ''left'')"

abbreviation pressDown :: "nat \<Rightarrow> event" where
  "pressDown i \<equiv> Deliver i (KeyMsg ''down'')"

abbreviation pressUp :: "nat \<Rightarrow> event" where
  "pressUp i \<equiv> Deliver i (KeyMsg ''up'')"

abbreviation pressR :: "nat \<Rightarrow> event" where
  "pressR i \<equiv> Deliver i (KeyMsg ''r'')"

abbreviation tickAt :: "nat \<Rightarrow> int \<Rightarrow> event" where
  "tickAt i now \<equiv> Deliver i (TickMsg now)"

subsection \<open>Invariants of the runs\<close>

text \<open>
  The board of a model is a 3x3 grid and its cursor is on the grid.
\<close>

definition inRange :: "model \<Rightarrow> bool" where
  "inRange m \<longleftrightarrow> is3x3 (board m) \<and> 0 \<le> cursorX m \<and> cursorX m < 3 \<and> 0 \<le> cursorY m \<and> cursorY m < 3"

text \<open>
  What every message keeps, for a model whose session is at address \<open>a\<close>: the
  session pointer and the symbol of the model, every other session, the player count,
  a turn that is 0 or 1, boards that hold only marks, and the shapes.
\<close>

definition keeps :: "addr \<Rightarrow> model \<Rightarrow> heap \<Rightarrow> model \<Rightarrow> heap \<Rightarrow> bool" where
  "keeps a m h m' h' \<longleftrightarrow>
     gameSession m' = gameSession m \<and> playerSymbol m' = playerSymbol m
     \<and> (\<forall>b. b \<noteq> a \<longrightarrow> h' b = h b)
     \<and> PlayerCount (h' a) = PlayerCount (h a)
     \<and> (CurrentPlayer (h a) = 0 \<or> CurrentPlayer (h a) = 1 \<longrightarrow>
          CurrentPlayer (h' a) = 0 \<or> CurrentPlayer (h' a) = 1)
     \<and> ((playerSymbol m = PlayerX \<or> playerSymbol m = PlayerO) \<and> marksOK (board m)
            \<and> marksOK (Board (h a)) \<longrightarrow>
          marksOK (board m') \<and> marksOK (Board (h' a)))
     \<and> (inRange m \<and> is3x3 (Board (h a)) \<longrightarrow> inRange m' \<and> is3x3 (Board (h' a)))"

text \<open>
  The pairing of a run: the connection number \<open>i\<close> (from 0) plays on the session at
  address \<open>i div 2\<close>, as X when \<open>i\<close> is even and as O when it is odd; a session waits
  exactly when the number of connections is odd; the player count of a session is 2 once
  its second connection has arrived.
\<close>

definition wellPaired :: "world \<Rightarrow> bool" where
  "wellPaired w \<longleftrightarrow>
     (\<forall>i < length (views w).
        gameSession (views w ! i) = Some (i div 2)
        \<and> playerSymbol (views w ! i) = (if even i then PlayerX else PlayerO))
     \<and> waitingSession w = (if even (length (views w)) then None
                             else Some (length (views w) div 2))
     \<and> allocated w = (length (views w) + 1) div 2
     \<and> (\<forall>a < allocated w.
          PlayerCount (sessions w a) = (if 2 * a + 1 < length (views w) then 2 else 1))"

text \<open>
  The shapes of a run: every board holds only marks, the turn of a session is 0 or 1,
  the board of every allocated session is a 3x3 grid, and so is the board of every
  model, with its cursor on the grid.
\<close>

definition wellFormed :: "world \<Rightarrow> bool" where
  "wellFormed w \<longleftrightarrow>
     (\<forall>a. marksOK (Board (sessions w a)))
     \<and> (\<forall>a. CurrentPlayer (sessions w a) = 0 \<or> CurrentPlayer (sessions w a) = 1)
     \<and> (\<forall>a < allocated w. is3x3 (Board (sessions w a)))
     \<and> (\<forall>v \<in> set (views w). marksOK (board v) \<and> inRange v)"

section \<open>The win check finds the first line in scan order\<close>

lemma is3x3_shape:
  "is3x3 b \<Longrightarrow> \<exists>a0 a1 a2 b0 b1 b2 c0 c1 c2. b = [[a0,a1,a2],[b0,b1,b2],[c0,c1,c2]]"
  unfolding is3x3_def
  by (auto simp: length_Suc_conv numeral_3_eq_3)

lemma loopRange_eq: "loopRange = [0, 1, 2]"
  by (simp add: loopRange_def BoardSize_def upt_rec)

lemma cellAt_grid:
  "cellAt [[a0,a1,a2],[b0,b1,b2],[c0,c1,c2]] 0 0 = Some a0"
  "cellAt [[a0,a1,a2],[b0,b1,b2],[c0,c1,c2]] 0 1 = Some a1"
  "cellAt [[a0,a1,a2],[b0,b1,b2],[c0,c1,c2]] 0 2 = Some a2"
  "cellAt [[a0,a1,a2],[b0,b1,b2],[c0,c1,c2]] 1 0 = Some b0"
  "cellAt [[a0,a1,a2],[b0,b1,b2],[c0,c1,c2]] 1 1 = Some b1"
  "cellAt [[a0,a1,a2],[b0,b1,b2],[c0,c1,c2]] 1 2 = Some b2"
  "cellAt [[a0,a1,a2],[b0,b1,b2],[c0,c1,c2]] 2 0 = Some c0"
  "cellAt [[a0,a1,a2],[b0,b1,b2],[c0,c1,c2]] 2 1 = Some c1"
  "cellAt [[a0,a1,a2],[b0,b1,b2],[c0,c1,c2]] 2 2 = Some c2"
  by (simp_all add: cellAt_def idx_def)

lemma checkWinner_grid:
  "checkWinner [[a0,a1,a2],[b0,b1,b2],[c0,c1,c2]] p =
     Some (case find (uniformly [[a0,a1,a2],[b0,b1,b2],[c0,c1,c2]] p) scanOrder of
             None \<Rightarrow> [] | Some l \<Rightarrow> l)"
  by (simp add: checkWinner_def loopRange_eq eq3_def cellAt_grid mk_def scanOrder_def
        uniformly_def)

lemma checkWinner_find:
  assumes "is3x3 b"
  shows "checkWinner b p =
           Some (case find (uniformly b p) scanOrder of None \<Rightarrow> [] | Some l \<Rightarrow> l)"
  using is3x3_shape[OF assms] checkWinner_grid by auto

lemma scanOrder_lines: "l \<in> set scanOrder \<Longrightarrow> length l = 3"
  by (auto simp: scanOrder_def)

text \<open>
  Claim C3. On a 3x3 board checkWinner does not panic, and for every player string it
  returns a line (a non-nil result, of three cells) exactly when some row, column or
  diagonal holds that player in all three cells; the line it returns is then the first
  such line of the scan order (rows top to bottom, columns left to right, the diagonal
  from the top left, the diagonal from the top right), which is what the evaluation of
  the specification returns. checkWinner is a function of the board and the player alone.
\<close>

theorem checkWinner_first_line_in_scan_order:
  assumes "is3x3 b"
  shows "\<exists>r. checkWinner b p = Some r
           \<and> (r \<noteq> [] \<longleftrightarrow> (\<exists>l \<in> set scanOrder. uniformly b p l))
           \<and> (r \<noteq> [] \<longrightarrow> length r = 3 \<and>
                 (\<exists>i < length scanOrder. r = scanOrder ! i \<and> uniformly b p r
                     \<and> (\<forall>j < i. \<not> uniformly b p (scanOrder ! j))))
           \<and> spec_evaluateOutcome b p = (if r = [] then None else Some r)"
proof (cases "find (uniformly b p) scanOrder")
  case None
  then have no: "\<not> (\<exists>l \<in> set scanOrder. uniformly b p l)"
    by (auto simp: find_None_iff)
  from None have "checkWinner b p = Some []"
    by (simp add: checkWinner_find[OF assms])
  with None no show ?thesis
    by (simp add: spec_evaluateOutcome_def)
next
  case (Some l)
  then obtain i where i: "i < length scanOrder" "uniformly b p (scanOrder ! i)"
      "l = scanOrder ! i" "\<forall>j < i. \<not> uniformly b p (scanOrder ! j)"
    by (auto simp: find_Some_iff)
  then have mem: "l \<in> set scanOrder" by simp
  then have len: "length l = 3" by (rule scanOrder_lines)
  then have ne: "l \<noteq> []" by auto
  from Some have cw: "checkWinner b p = Some l"
    by (simp add: checkWinner_find[OF assms])
  have ex: "\<exists>l \<in> set scanOrder. uniformly b p l"
    using mem i by auto
  show ?thesis
    using cw ne len ex i Some
    by (auto simp: spec_evaluateOutcome_def)
qed

theorem checkWinner_first_line_in_scan_order_witness:
  "is3x3 [[''X'', ''O'', ''X''], [''X'', ''X'', ''X''], [''X'', ''O'', ''O'']]
   \<and> checkWinner [[''X'', ''O'', ''X''], [''X'', ''X'', ''X''], [''X'', ''O'', ''O'']] ''X''
        = Some [mk 1 0, mk 1 1, mk 1 2]
   \<and> spec_evaluateOutcome [[''X'', ''O'', ''X''], [''X'', ''X'', ''X''], [''X'', ''O'', ''O'']] ''X''
        = Some [mk 1 0, mk 1 1, mk 1 2]"
proof -
  let ?b = "[[''X'', ''O'', ''X''], [''X'', ''X'', ''X''], [''X'', ''O'', ''O'']]"
  have h: "is3x3 ?b" by (simp add: is3x3_def)
  have s: "spec_evaluateOutcome ?b ''X'' = Some [mk 1 0, mk 1 1, mk 1 2]"
    by (simp add: spec_evaluateOutcome_def scanOrder_def uniformly_def cellAt_grid mk_def)
  from checkWinner_first_line_in_scan_order[OF h, of "''X''"] s h show ?thesis
    by (auto split: if_splits)
qed



lemma createEmptyBoard_grid:
  "createEmptyBoard = [['''', '''', ''''], ['''', '''', ''''], ['''', '''', '''']]"
  by (simp add: createEmptyBoard_def BoardSize_def Empty_def numeral_3_eq_3)

section \<open>Rejected placements\<close>

text \<open>
  Claim C5. The handler of the keys enter and space rejects a placement at one of its
  three guards: the outcome that the model holds is decided, the model has a session and
  it is not its turn, or the cell under the cursor is not empty in the board of the
  model. In each case Update returns the model and the store of sessions as they were,
  with no command, and it does not panic: board, turn and outcome are the same before
  and after.
\<close>

theorem rejected_placement_changes_nothing:
  assumes "winner m \<noteq> Empty
           \<or> (gameSession m \<noteq> None \<and> \<not> isMyTurn m)
           \<or> (\<exists>c. cellAt (board m) (cursorY m) (cursorX m) = Some c \<and> c \<noteq> Empty)"
  shows "Update (KeyMsg ''enter'') m h = Some (m, h, NoCmd)
         \<and> Update (KeyMsg '' '') m h = Some (m, h, NoCmd)"
  using assms by (auto simp: Update_def onKey_def onPlace_def)

theorem rejected_placement_changes_nothing_witness:
  "(gameSession (initialModel\<lparr>playerSymbol := PlayerO, gameSession := Some 0\<rparr>) \<noteq> None
    \<and> \<not> isMyTurn (initialModel\<lparr>playerSymbol := PlayerO, gameSession := Some 0\<rparr>))
   \<and> Update (KeyMsg ''enter'') (initialModel\<lparr>playerSymbol := PlayerO, gameSession := Some 0\<rparr>)
        (\<lambda>_. zeroSession)
      = Some (initialModel\<lparr>playerSymbol := PlayerO, gameSession := Some 0\<rparr>, (\<lambda>_. zeroSession), NoCmd)"
proof -
  let ?m = "initialModel\<lparr>playerSymbol := PlayerO, gameSession := Some 0\<rparr>"
  have h: "gameSession ?m \<noteq> None \<and> \<not> isMyTurn ?m"
    by (simp add: initialModel_def)
  then have "winner ?m \<noteq> Empty \<or> (gameSession ?m \<noteq> None \<and> \<not> isMyTurn ?m)
      \<or> (\<exists>c. cellAt (board ?m) (cursorY ?m) (cursorX ?m) = Some c \<and> c \<noteq> Empty)"
    by blast
  from rejected_placement_changes_nothing[OF this, of "\<lambda>_. zeroSession"] h
  show ?thesis by blast
qed

section \<open>Restart\<close>

text \<open>A tick only reads the session; it never panics.\<close>

lemma tick_reads_only:
  "Update (TickMsg now) m h = Some (m', h', c) \<Longrightarrow> h' = h"
  by (auto simp: Update_def onTick_def Let_def split: option.splits if_splits)

lemma tick_total: "\<exists>m' c. Update (TickMsg now) m h = Some (m', h, c)"
  by (auto simp: Update_def onTick_def Let_def split: option.splits if_splits)

text \<open>
  The two locks of the restart. Under the first, resetGame gives every field of the
  session but the player count its initial value, the request flag included. Under the
  second, the handler sets the request flag and nothing else.
\<close>

lemma resetGame_session:
  assumes "gameSession m = Some a"
  shows "snd (resetGame m h) =
           h(a := \<lparr>Board = [['''', '''', ''''], ['''', '''', ''''], ['''', '''', '''']],
                    CurrentPlayer = 0, Winner = Empty, WinningCells = [],
                    PlayerCount = PlayerCount (h a), PlayerDisconnected = False,
                    RestartRequested = False\<rparr>)"
  using assms by (cases "h a") (simp add: resetGame_def Let_def createEmptyBoard_grid)

lemma raiseRestart_session:
  assumes "gameSession m = Some a"
  shows "raiseRestart m h = h(a := (h a)\<lparr>RestartRequested := True\<rparr>)"
  using assms by (simp add: raiseRestart_def)

text \<open>The key \<open>r\<close> in one step is the two steps of the restart in a row.\<close>

lemma restart_in_two_steps:
  assumes "i < length (views w)" "i \<notin> set (raising w)"
  shows "run [BeginRestart i, EndRestart i] w = step (Deliver i (KeyMsg ''r'')) w"
proof -
  obtain m1 h1 where r: "resetGame (views w ! i) (sessions w) = (m1, h1)"
    by (cases "resetGame (views w ! i) (sessions w)")
  show ?thesis
    using assms r by (simp add: Update_def onKey_def onRestart_def)
qed

text \<open>
  Claim C2, at the failing input. Two players are paired and the first presses \<open>r\<close>.
  The request resets the session and leaves the flag \<open>RestartRequested\<close> set. The next
  tick of each player finds the flag and returns \<open>tea.ClearScreen\<close>, not the next
  \<open>tea.Tick\<close>, and it leaves the flag as it is: after the tick of the first player and
  after the ticks of both, the flag is still true. No step of the program clears it but
  resetGame, and the handler of \<open>r\<close> sets it again right after.
\<close>

theorem restart_flag_survives_reconciliation:
  "map_option (\<lambda>w. RestartRequested (sessions w 0))
     (run [Connect, Connect, pressR 0, tickAt 0 1000, tickAt 1 1000] world0) = Some True
   \<and> Option.bind (run [Connect, Connect, pressR 0] world0)
       (\<lambda>w. map_option (\<lambda>(m', h', c). (c, RestartRequested (h' 0)))
              (Update (TickMsg 1000) (views w ! 0) (sessions w)))
       = Some (ClearScreen, True)
   \<and> Option.bind (run [Connect, Connect, pressR 0, tickAt 0 1000] world0)
       (\<lambda>w. map_option (\<lambda>(m', h', c). (c, RestartRequested (h' 0)))
              (Update (TickMsg 1000) (views w ! 1) (sessions w)))
       = Some (ClearScreen, True)"
  by code_simp

section \<open>The grace period after a disconnect\<close>

lemma Since_gt: "Since now t > DisconnectTimeout \<longleftrightarrow> now - t > DisconnectTimeout"
  by (auto simp: Since_def Let_def DisconnectTimeout_def maxDuration_def minDuration_def)

lemma sync_fields [simp]:
  "gameSession (sync m s) = gameSession m"
  "disconnectTimer (sync m s) = disconnectTimer m"
  "playerSymbol (sync m s) = playerSymbol m"
  by (simp_all add: sync_def Let_def)

lemma sync_idem: "sync (sync m s) s = sync m s"
  by (simp add: sync_def Let_def)

lemma sync_timer: "sync (m\<lparr>disconnectTimer := t\<rparr>) s = (sync m s)\<lparr>disconnectTimer := t\<rparr>"
  by (simp add: sync_def Let_def)

lemma tick_first_observation:
  assumes "observesDisconnect m h" "gameSession m = Some a" "IsZero (disconnectTimer m)"
  shows "Update (TickMsg t0) m h = Some ((sync m (h a))\<lparr>disconnectTimer := t0\<rparr>, h, Tick)"
  using assms by (simp add: Update_def onTick_def observesDisconnect_def Let_def)

lemma tick_countdown:
  assumes "observesDisconnect m h" "gameSession m = Some a" "\<not> IsZero (disconnectTimer m)"
  shows "Update (TickMsg t) m h =
           Some (sync m (h a), h, if t - disconnectTimer m > DisconnectTimeout then Quit else Tick)"
  using assms by (simp add: Update_def onTick_def observesDisconnect_def Let_def Since_gt)

lemma tickLoop_countdown:
  assumes "observesDisconnect m h" "gameSession m = Some a" "\<not> IsZero (disconnectTimer m)"
    "sync m (h a) = m"
  shows "tickLoop ts m h =
           (case find (\<lambda>t. t - disconnectTimer m > DisconnectTimeout) ts of
              None \<Rightarrow> Ticking m | Some t \<Rightarrow> Ended t Quit m)"
  using assms
proof (induction ts)
  case Nil
  then show ?case by simp
next
  case (Cons t ts)
  from tick_countdown[OF Cons.prems(1,2,3), of t] Cons.prems(4)
  have "Update (TickMsg t) m h =
          Some (m, h, if t - disconnectTimer m > DisconnectTimeout then Quit else Tick)"
    by simp
  with Cons show ?case by simp
qed

text \<open>
  Claim C7. Let a model with the zero \<open>disconnectTimer\<close> observe the disconnect at a
  tick whose clock reads \<open>t0\<close> (not the zero instant), and let the following ticks read
  \<open>ts\<close>, while it goes on observing the disconnect. The first tick stores \<open>t0\<close> and
  goes on. The loop of ticks then ends with \<open>tea.Quit\<close> at the first tick whose
  reading is more than DisconnectTimeout (5 seconds) after \<open>t0\<close>, and at no earlier
  tick; when no reading is that late, the loop is still ticking. The period is counted
  from the reading of the first observing tick: the instant of the disconnect is no
  input of the handler.
\<close>

theorem disconnect_grace_period:
  assumes "observesDisconnect m h" and "gameSession m = Some a"
    and "IsZero (disconnectTimer m)" and "\<not> IsZero t0"
  shows "tickLoop (t0 # ts) m h =
           (case find (\<lambda>t. t - t0 > DisconnectTimeout) ts of
              None \<Rightarrow> Ticking ((sync m (h a))\<lparr>disconnectTimer := t0\<rparr>)
            | Some t \<Rightarrow> Ended t Quit ((sync m (h a))\<lparr>disconnectTimer := t0\<rparr>))"
proof -
  let ?m = "(sync m (h a))\<lparr>disconnectTimer := t0\<rparr>"
  have obs: "observesDisconnect ?m h"
    using assms(1,2) by (simp add: observesDisconnect_def)
  have gs: "gameSession ?m = Some a" using assms(2) by simp
  have nz: "\<not> IsZero (disconnectTimer ?m)" using assms(4) by simp
  have stable: "sync ?m (h a) = ?m" by (simp add: sync_timer sync_idem)
  from tickLoop_countdown[OF obs gs nz stable, of ts]
  have "tickLoop ts ?m h =
          (case find (\<lambda>t. t - t0 > DisconnectTimeout) ts of
             None \<Rightarrow> Ticking ?m | Some t \<Rightarrow> Ended t Quit ?m)"
    by simp
  with tick_first_observation[OF assms(1,2,3), of t0] show ?thesis by simp
qed


theorem disconnect_grace_period_witness:
  "observesDisconnect (initialModel\<lparr>playerSymbol := PlayerX, gameSession := Some 0\<rparr>)
      (\<lambda>_. zeroSession\<lparr>PlayerCount := 2, PlayerDisconnected := True\<rparr>)
   \<and> gameSession (initialModel\<lparr>playerSymbol := PlayerX, gameSession := Some 0\<rparr>) = Some 0
   \<and> IsZero (disconnectTimer (initialModel\<lparr>playerSymbol := PlayerX, gameSession := Some 0\<rparr>))
   \<and> \<not> IsZero 1000000000
   \<and> (case tickLoop [1000000000, 3000000000, 6000000000, 6000000001, 7000000000]
              (initialModel\<lparr>playerSymbol := PlayerX, gameSession := Some 0\<rparr>)
              (\<lambda>_. zeroSession\<lparr>PlayerCount := 2, PlayerDisconnected := True\<rparr>) of
         Ended t c m' \<Rightarrow> t = 6000000001 \<and> c = Quit \<and> disconnectTimer m' = 1000000000
       | _ \<Rightarrow> False)"
proof -
  let ?m = "initialModel\<lparr>playerSymbol := PlayerX, gameSession := Some 0\<rparr>"
  let ?h = "\<lambda>_::nat. zeroSession\<lparr>PlayerCount := 2, PlayerDisconnected := True\<rparr>"
  have a1: "observesDisconnect ?m ?h" by (simp add: observesDisconnect_def zeroSession_def)
  have a2: "gameSession ?m = Some 0" by simp
  have a3: "IsZero (disconnectTimer ?m)" by (simp add: IsZero_def initialModel_def)
  have a4: "\<not> IsZero 1000000000" by (simp add: IsZero_def)
  from disconnect_grace_period[OF a1 a2 a3 a4, of "[3000000000, 6000000000, 6000000001, 7000000000]"]
    a1 a2 a3 a4
  show ?thesis by (simp add: DisconnectTimeout_def)
qed

section \<open>The effect of an applied placement\<close>

lemma isDraw_cells: "isDraw b \<longleftrightarrow> (\<forall>y x c. cellAt b y x = Some c \<longrightarrow> c \<noteq> '''')"
proof
  assume d: "isDraw b"
  show "\<forall>y x c. cellAt b y x = Some c \<longrightarrow> c \<noteq> ''''"
  proof (intro allI impI)
    fix y x c assume "cellAt b y x = Some c"
    then have "nat y < length b" "nat x < length (b ! nat y)" "c = b ! nat y ! nat x"
      by (auto simp: cellAt_def idx_def split: if_splits)
    with d show "c \<noteq> ''''"
      by (auto simp: isDraw_def list_all_length)
  qed
next
  assume a: "\<forall>y x c. cellAt b y x = Some c \<longrightarrow> c \<noteq> ''''"
  show "isDraw b"
    unfolding isDraw_def list_all_length
  proof (intro allI impI)
    fix i j assume "i < length b" "j < length (b ! i)"
    then have "cellAt b (int i) (int j) = Some (b ! i ! j)"
      by (simp add: cellAt_def idx_def)
    with a show "b ! i ! j \<noteq> ''''" by blast
  qed
qed

lemma cellAt_setCell:
  assumes "setCell b y x v = Some b'"
  shows "cellAt b' y' x' = (if y' = y \<and> x' = x then Some v else cellAt b y' x')"
proof -
  from assms have r: "0 \<le> y" "nat y < length b" "0 \<le> x" "nat x < length (b ! nat y)"
      and b': "b' = b[nat y := (b ! nat y)[nat x := v]]"
    by (auto simp: setCell_def idx_def split: if_splits)
  show ?thesis
  proof (cases "y' = y")
    case True
    with r b' show ?thesis
      by (auto simp: cellAt_def idx_def nth_list_update nat_eq_iff)
  next
    case False
    with r b' show ?thesis
      by (auto simp: cellAt_def idx_def nth_list_update nat_eq_iff)
  qed
qed

lemma setCell_3x3:
  assumes "is3x3 b" "setCell b y x v = Some b'"
  shows "is3x3 b'"
  using assms
  by (auto simp: is3x3_def setCell_def idx_def list_all_length nth_list_update split: if_splits)

lemma setCell_defined:
  assumes "is3x3 b" "is3x3 c" "cellAt c y x = Some u"
  shows "\<exists>b'. setCell b y x v = Some b'"
  using assms
  by (auto simp: is3x3_def setCell_def cellAt_def idx_def list_all_length Option.bind_eq_Some_conv split: if_splits)

lemma checkWinner_defined:
  assumes "is3x3 b"
  shows "\<exists>cells. checkWinner b p = Some cells"
  using checkWinner_find[OF assms] by simp



lemma space_is_enter: "Update (KeyMsg '' '') m h = Update (KeyMsg ''enter'') m h"
  by (simp add: Update_def onKey_def)

lemma turn_flips:
  assumes "turnSymbol s = p" "CurrentPlayer s = 0 \<or> CurrentPlayer s = 1"
  shows "turnSymbol (s\<lparr>Board := sb, CurrentPlayer := wrap64 (1 - CurrentPlayer s)\<rparr>) =
           (if p = PlayerX then PlayerO else PlayerX)"
  using assms by (auto simp: turnSymbol_def wrap64_def PlayerX_def PlayerO_def)

text \<open>
  What an applied placement does. A placement that passes the three guards of the
  handler, on 3x3 boards, does not panic. In a session it writes the symbol of the player
  at the cursor into the board of the session; then, when checkWinner finds a line for
  that symbol, the winner becomes that symbol and the line is stored; else, when isDraw
  holds (which is exactly when every cell of the board is non-empty), the winner becomes
  the draw; else \<open>CurrentPlayer\<close> flips, and when the player was the one whose turn the
  session held, the turn is then with the other symbol. In standalone mode the same
  happens on the model with the current player as the mark, and the current player
  switches.
\<close>

lemma applied_placement_effect:
  assumes "winner m = Empty"
    and "gameSession m \<noteq> None \<longrightarrow> isMyTurn m"
    and "cellAt (board m) (cursorY m) (cursorX m) = Some Empty"
    and "is3x3 (board m)"
    and "\<forall>a. gameSession m = Some a \<longrightarrow> is3x3 (Board (h a))"
  shows "Update (KeyMsg '' '') m h = Update (KeyMsg ''enter'') m h \<and>
    (case gameSession m of
       Some a \<Rightarrow>
         (\<exists>b1 sb cells.
            setCell (board m) (cursorY m) (cursorX m) (playerSymbol m) = Some b1
          \<and> setCell (Board (h a)) (cursorY m) (cursorX m) (playerSymbol m) = Some sb
          \<and> cellAt sb (cursorY m) (cursorX m) = Some (playerSymbol m)
          \<and> checkWinner sb (playerSymbol m) = Some cells
          \<and> (isDraw sb \<longleftrightarrow> (\<forall>y x c. cellAt sb y x = Some c \<longrightarrow> c \<noteq> ''''))
          \<and> Update (KeyMsg ''enter'') m h =
              Some (m\<lparr>board := b1\<rparr>,
                    h(a := (if cells \<noteq> [] then
                              (h a)\<lparr>Board := sb, Winner := playerSymbol m, WinningCells := cells\<rparr>
                            else if isDraw sb then (h a)\<lparr>Board := sb, Winner := Draw\<rparr>
                            else (h a)\<lparr>Board := sb, CurrentPlayer := wrap64 (1 - CurrentPlayer (h a))\<rparr>)),
                    NoCmd)
          \<and> (turnSymbol (h a) = playerSymbol m
               \<and> (CurrentPlayer (h a) = 0 \<or> CurrentPlayer (h a) = 1) \<longrightarrow>
               turnSymbol ((h a)\<lparr>Board := sb, CurrentPlayer := wrap64 (1 - CurrentPlayer (h a))\<rparr>) =
                 (if playerSymbol m = PlayerX then PlayerO else PlayerX)))
     | None \<Rightarrow>
         (\<exists>b1 cells.
            setCell (board m) (cursorY m) (cursorX m) (currentPlayer m) = Some b1
          \<and> cellAt b1 (cursorY m) (cursorX m) = Some (currentPlayer m)
          \<and> checkWinner b1 (currentPlayer m) = Some cells
          \<and> (isDraw b1 \<longleftrightarrow> (\<forall>y x c. cellAt b1 y x = Some c \<longrightarrow> c \<noteq> ''''))
          \<and> Update (KeyMsg ''enter'') m h =
              Some (if cells \<noteq> [] then
                      m\<lparr>board := b1, winner := currentPlayer m, winningCells := cells\<rparr>
                    else if isDraw b1 then m\<lparr>board := b1, winner := Draw\<rparr>
                    else m\<lparr>board := b1,
                           currentPlayer := (if currentPlayer m = PlayerX then PlayerO else PlayerX)\<rparr>,
                    h, NoCmd)))"
proof (cases "gameSession m")
  case None
  from setCell_defined[OF assms(4) assms(4) assms(3)]
  obtain b1 where b1: "setCell (board m) (cursorY m) (cursorX m) (currentPlayer m) = Some b1"
    by blast
  have "is3x3 b1" using setCell_3x3[OF assms(4) b1] .
  from checkWinner_defined[OF this]
  obtain cells where cells: "checkWinner b1 (currentPlayer m) = Some cells" by blast
  have at: "cellAt b1 (cursorY m) (cursorX m) = Some (currentPlayer m)"
    using cellAt_setCell[OF b1] by simp
  have upd: "Update (KeyMsg ''enter'') m h =
              Some (if cells \<noteq> [] then
                      m\<lparr>board := b1, winner := currentPlayer m, winningCells := cells\<rparr>
                    else if isDraw b1 then m\<lparr>board := b1, winner := Draw\<rparr>
                    else m\<lparr>board := b1,
                           currentPlayer := (if currentPlayer m = PlayerX then PlayerO else PlayerX)\<rparr>,
                    h, NoCmd)"
    using None assms(1,3) b1 cells
    by (simp add: Update_def onKey_def onPlace_def settleLocal_def switchPlayer_def)
  show ?thesis
    using None b1 cells at upd isDraw_cells[of b1] space_is_enter[of m h]
    by auto
next
  case (Some a)
  then have sh: "is3x3 (Board (h a))" and turn: "isMyTurn m"
    using assms(2,5) by auto
  from setCell_defined[OF assms(4) assms(4) assms(3)]
  obtain b1 where b1: "setCell (board m) (cursorY m) (cursorX m) (playerSymbol m) = Some b1"
    by blast
  from setCell_defined[OF sh assms(4) assms(3)]
  obtain sb where sb: "setCell (Board (h a)) (cursorY m) (cursorX m) (playerSymbol m) = Some sb"
    by blast
  have "is3x3 sb" using setCell_3x3[OF sh sb] .
  from checkWinner_defined[OF this]
  obtain cells where cells: "checkWinner sb (playerSymbol m) = Some cells" by blast
  have at: "cellAt sb (cursorY m) (cursorX m) = Some (playerSymbol m)"
    using cellAt_setCell[OF sb] by simp
  have upd: "Update (KeyMsg ''enter'') m h =
              Some (m\<lparr>board := b1\<rparr>,
                    h(a := (if cells \<noteq> [] then
                              (h a)\<lparr>Board := sb, Winner := playerSymbol m, WinningCells := cells\<rparr>
                            else if isDraw sb then (h a)\<lparr>Board := sb, Winner := Draw\<rparr>
                            else (h a)\<lparr>Board := sb, CurrentPlayer := wrap64 (1 - CurrentPlayer (h a))\<rparr>)),
                    NoCmd)"
    using Some turn assms(1,3) b1 sb cells
    by (simp add: Update_def onKey_def onPlace_def settle_def)
  have flip: "turnSymbol (h a) = playerSymbol m
               \<and> (CurrentPlayer (h a) = 0 \<or> CurrentPlayer (h a) = 1) \<longrightarrow>
               turnSymbol ((h a)\<lparr>Board := sb, CurrentPlayer := wrap64 (1 - CurrentPlayer (h a))\<rparr>) =
                 (if playerSymbol m = PlayerX then PlayerO else PlayerX)"
    using turn_flips[of "h a" "playerSymbol m" sb] by blast
  show ?thesis
    using Some b1 sb cells at upd flip isDraw_cells[of sb] space_is_enter[of m h]
    by auto
qed

lemma applied_placement_effect_example:
  "winner (initialModel\<lparr>playerSymbol := PlayerX, isMyTurn := True, gameSession := Some 0\<rparr>) = Empty
   \<and> isMyTurn (initialModel\<lparr>playerSymbol := PlayerX, isMyTurn := True, gameSession := Some 0\<rparr>)
   \<and> (\<exists>m' h'. Update (KeyMsg ''enter'')
                 (initialModel\<lparr>playerSymbol := PlayerX, isMyTurn := True, gameSession := Some 0\<rparr>)
                 (\<lambda>_. zeroSession\<lparr>Board := createEmptyBoard, PlayerCount := 2\<rparr>)
               = Some (m', h', NoCmd)
          \<and> Board (h' 0) = [[''X'', '''', ''''], ['''', '''', ''''], ['''', '''', '''']]
          \<and> Winner (h' 0) = '''' \<and> turnSymbol (h' 0) = ''O'')"
proof -
  define m where "m = initialModel\<lparr>playerSymbol := PlayerX, isMyTurn := True, gameSession := Some 0\<rparr>"
  define h where "h = (\<lambda>_::nat. zeroSession\<lparr>Board := createEmptyBoard, PlayerCount := 2\<rparr>)"
  let ?g = "[[''X'', '''', ''''], ['''', '''', ''''], ['''', '''', '''']]"
  have mf: "winner m = Empty" "isMyTurn m" "gameSession m = Some 0" "board m = createEmptyBoard"
    "cursorX m = 0" "cursorY m = 0" "playerSymbol m = ''X''"
    by (simp_all add: m_def initialModel_def Empty_def PlayerX_def)
  have hf: "Board (h 0) = createEmptyBoard" "CurrentPlayer (h 0) = 0" "Winner (h 0) = ''''"
    by (simp_all add: h_def zeroSession_def)
  have a2: "gameSession m \<noteq> None \<longrightarrow> isMyTurn m" using mf by simp
  have a3: "cellAt (board m) (cursorY m) (cursorX m) = Some Empty"
    using mf by (simp add: createEmptyBoard_grid cellAt_grid Empty_def)
  have a4: "is3x3 (board m)" using mf by (simp add: is3x3_def createEmptyBoard_grid)
  have a5: "\<forall>a. gameSession m = Some a \<longrightarrow> is3x3 (Board (h a))"
    by (simp add: h_def is3x3_def createEmptyBoard_grid)
  have sc: "setCell createEmptyBoard 0 0 ''X'' = Some ?g"
    by (simp add: setCell_def idx_def createEmptyBoard_grid)
  have cw: "checkWinner ?g ''X'' = Some []"
    by (simp add: checkWinner_grid scanOrder_def uniformly_def cellAt_grid mk_def)
  have nd: "\<not> isDraw ?g"
    by (simp add: isDraw_def)
  note t = applied_placement_effect[OF mf(1) a2 a3 a4 a5, THEN conjunct2]
  from t[unfolded mf(3) option.case]
  obtain b1 sb cells where
    sb: "setCell (Board (h 0)) (cursorY m) (cursorX m) (playerSymbol m) = Some sb"
    and cells: "checkWinner sb (playerSymbol m) = Some cells"
    and u: "Update (KeyMsg ''enter'') m h =
              Some (m\<lparr>board := b1\<rparr>,
                    h(0 := (if cells \<noteq> [] then
                              (h 0)\<lparr>Board := sb, Winner := playerSymbol m, WinningCells := cells\<rparr>
                            else if isDraw sb then (h 0)\<lparr>Board := sb, Winner := Draw\<rparr>
                            else (h 0)\<lparr>Board := sb, CurrentPlayer := wrap64 (1 - CurrentPlayer (h 0))\<rparr>)),
                    NoCmd)"
    by blast
  from sb sc have sbv: "sb = ?g" by (simp add: mf hf)
  from cells cw sbv have cv: "cells = []" by (simp add: mf)
  have u': "Update (KeyMsg ''enter'') m h =
              Some (m\<lparr>board := b1\<rparr>, h(0 := (h 0)\<lparr>Board := ?g, CurrentPlayer := 1\<rparr>), NoCmd)"
    using u nd by (simp add: sbv cv hf wrap64_def)
  have "Board ((h(0 := (h 0)\<lparr>Board := ?g, CurrentPlayer := 1\<rparr>)) 0) = ?g
      \<and> Winner ((h(0 := (h 0)\<lparr>Board := ?g, CurrentPlayer := 1\<rparr>)) 0) = ''''
      \<and> turnSymbol ((h(0 := (h 0)\<lparr>Board := ?g, CurrentPlayer := 1\<rparr>)) 0) = ''O''"
    by (simp add: hf turnSymbol_def PlayerO_def)
  with u' have "\<exists>m' h'. Update (KeyMsg ''enter'') m h = Some (m', h', NoCmd)
          \<and> Board (h' 0) = ?g \<and> Winner (h' 0) = '''' \<and> turnSymbol (h' 0) = ''O''"
    by blast
  with mf(1,2) have "winner m = Empty \<and> isMyTurn m
     \<and> (\<exists>m' h'. Update (KeyMsg ''enter'') m h = Some (m', h', NoCmd)
          \<and> Board (h' 0) = ?g \<and> Winner (h' 0) = '''' \<and> turnSymbol (h' 0) = ''O'')"
    by blast
  then show ?thesis unfolding m_def h_def .
qed

text \<open>
  Claim C4, at the failing input. The first player places X at (0,0); the second player
  ticks, places O at (0,1), moves the cursor and, before its next tick, places again.
  Before that placement the board of the session holds X and O in the top row and the
  turn of the session is X; the projection of the second player still says that it is
  its turn, so the placement is applied. It neither wins nor fills the board, and the
  turn flips to O: the turn is with the player that has just moved.
\<close>

theorem turn_stays_with_mover_after_stale_placement:
  "map_option (\<lambda>w. (Board (sessions w 0), turnSymbol (sessions w 0), isMyTurn (views w ! 1)))
     (run [Connect, Connect, pressEnter 0, tickAt 1 1000, pressRight 1, pressEnter 1, pressRight 1]
        world0)
     = Some ([[''X'', ''O'', ''''], ['''', '''', ''''], ['''', '''', '''']], ''X'', True)
   \<and> map_option (\<lambda>w. (Board (sessions w 0), Winner (sessions w 0), turnSymbol (sessions w 0),
                       playerSymbol (views w ! 1)))
     (run [Connect, Connect, pressEnter 0, tickAt 1 1000, pressRight 1, pressEnter 1, pressRight 1,
           pressEnter 1] world0)
     = Some ([[''X'', ''O'', ''O''], ['''', '''', ''''], ['''', '''', '''']], '''', ''O'', ''O'')"
  by code_simp


section \<open>What every message keeps\<close>

lemma copyBoard_id [simp]: "copyBoard b = b"
  by (simp add: copyBoard_def)

lemma marksOK_empty [simp]: "marksOK createEmptyBoard"
  by (simp add: marksOK_def createEmptyBoard_grid Empty_def)

lemma is3x3_empty [simp]: "is3x3 createEmptyBoard"
  by (simp add: is3x3_def createEmptyBoard_grid)

lemma marksOK_setCell:
  assumes "marksOK b" "v = Empty \<or> v = PlayerX \<or> v = PlayerO" "setCell b y x v = Some b'"
  shows "marksOK b'"
proof -
  let ?ok = "\<lambda>c. c = Empty \<or> c = PlayerX \<or> c = PlayerO"
  from assms(3) have r: "nat y < length b" and b': "b' = b[nat y := (b ! nat y)[nat x := v]]"
    by (auto simp: setCell_def idx_def split: if_splits)
  have row: "\<forall>c \<in> set (b ! nat y). ?ok c"
    using assms(1) r by (auto simp: marksOK_def list_all_iff)
  have "\<forall>c \<in> set ((b ! nat y)[nat x := v]). ?ok c"
    using row assms(2) set_update_subset_insert[of "b ! nat y" "nat x" v] by blast
  moreover have "\<forall>r \<in> set b. \<forall>c \<in> set r. ?ok c"
    using assms(1) by (auto simp: marksOK_def list_all_iff)
  ultimately have "\<forall>r \<in> set b'. \<forall>c \<in> set r. ?ok c"
    unfolding b' using set_update_subset_insert[of b "nat y" "(b ! nat y)[nat x := v]"] by blast
  then show ?thesis by (auto simp: marksOK_def list_all_iff)
qed

lemma settle_fields:
  assumes "settle s p = Some s'"
  shows "Board s' = Board s" "PlayerCount s' = PlayerCount s"
    "CurrentPlayer s = 0 \<or> CurrentPlayer s = 1 \<Longrightarrow> CurrentPlayer s' = 0 \<or> CurrentPlayer s' = 1"
  using assms
  by (auto simp: settle_def wrap64_def Option.bind_eq_Some_conv split: if_splits)

lemma keeps_refl: "keeps a m h m h"
  by (simp add: keeps_def)

lemma keeps_onTick:
  assumes "onTick now m h = Some (m', h', c)" "gameSession m = Some a"
  shows "keeps a m h m' h'"
  using assms
  by (auto simp: onTick_def keeps_def Let_def sync_def inRange_def split: if_splits)

lemma keeps_onUp: "keeps a m h (onUp m) h"
  by (simp add: keeps_def onUp_def inRange_def)

lemma keeps_onLeft: "keeps a m h (onLeft m) h"
  by (simp add: keeps_def onLeft_def inRange_def)

lemma idx_Some: "idx xs i = Some v \<longleftrightarrow> 0 \<le> i \<and> i < int (length xs) \<and> v = xs ! nat i"
  by (auto simp: idx_def)

lemma is3x3_row: "is3x3 b \<Longrightarrow> 0 \<le> y \<Longrightarrow> y < 3 \<Longrightarrow> length (b ! nat y) = 3"
  by (auto simp: is3x3_def list_all_length)

lemma keeps_onRight:
  assumes "onRight m = Some m'"
  shows "keeps a m h m' h"
proof -
  from assms obtain r where r: "idx (board m) (cursorY m) = Some r"
    and m': "m' = (if cursorX m < int (length r) - 1 then m\<lparr>cursorX := cursorX m + 1\<rparr> else m)"
    by (auto simp: onRight_def Option.bind_eq_Some_conv split: if_splits)
  have "inRange m \<Longrightarrow> inRange m'"
    using r m' is3x3_row[of "board m" "cursorY m"]
    by (auto simp: inRange_def idx_Some)
  then show ?thesis using m' by (auto simp: keeps_def)
qed

lemma keeps_onDown:
  assumes "onDown m = Some m'"
  shows "keeps a m h m' h"
proof -
  have b: "board m' = board m \<and> gameSession m' = gameSession m \<and> playerSymbol m' = playerSymbol m"
    using assms
    by (auto simp: onDown_def Let_def Option.bind_eq_Some_conv split: if_splits)
  have "inRange m' " if ir: "inRange m"
  proof -
    from ir have len: "int (length (board m)) = 3" by (simp add: inRange_def is3x3_def)
    show ?thesis
    proof (cases "cursorY m < 2")
      case True
      then have rowlen: "length (board m ! nat (cursorY m + 1)) = 3"
        using ir is3x3_row[of "board m" "cursorY m + 1"] by (simp add: inRange_def)
      have "m' = m\<lparr>cursorY := cursorY m + 1\<rparr>"
        using assms True len ir rowlen
        by (auto simp: onDown_def Let_def idx_def inRange_def)
      then show ?thesis using ir True by (simp add: inRange_def)
    next
      case False
      then have "m' = m" using assms len by (simp add: onDown_def)
      then show ?thesis using ir by simp
    qed
  qed
  then show ?thesis using b by (auto simp: keeps_def)
qed

lemma onRight_total: "inRange m \<Longrightarrow> onRight m \<noteq> None"
  by (auto simp: onRight_def inRange_def is3x3_def idx_def)

lemma onDown_total: "inRange m \<Longrightarrow> onDown m \<noteq> None"
  by (auto simp: onDown_def inRange_def is3x3_def idx_def Let_def)

lemma keeps_onRestart:
  assumes "onRestart m h = (m', h', c)" "gameSession m = Some a"
  shows "keeps a m h m' h'"
proof -
  from assms have m': "m' = fst (resetGame m h)"
    and h': "h' = (snd (resetGame m h))(a := (snd (resetGame m h) a)\<lparr>RestartRequested := True\<rparr>)"
    by (auto simp: onRestart_def raiseRestart_def resetGame_def Let_def)
  have rm: "gameSession (fst (resetGame m h)) = gameSession m"
    "playerSymbol (fst (resetGame m h)) = playerSymbol m"
    "board (fst (resetGame m h)) = createEmptyBoard"
    "cursorX (fst (resetGame m h)) = 0" "cursorY (fst (resetGame m h)) = 0"
    by (simp_all add: resetGame_def Let_def split: option.splits)
  have rh: "\<forall>b. b \<noteq> a \<longrightarrow> snd (resetGame m h) b = h b"
    "Board (snd (resetGame m h) a) = createEmptyBoard"
    "CurrentPlayer (snd (resetGame m h) a) = 0"
    "PlayerCount (snd (resetGame m h) a) = PlayerCount (h a)"
    using assms(2) by (simp_all add: resetGame_def Let_def)
  show ?thesis
    unfolding keeps_def m' h' using rm rh by (simp add: inRange_def)
qed

lemma onPlace_cases:
  assumes "onPlace m h = Some (m', h', c)" "gameSession m = Some a"
  shows "(m' = m \<and> h' = h) \<or>
         (\<exists>b1 sb s'.
            setCell (board m) (cursorY m) (cursorX m) (playerSymbol m) = Some b1
          \<and> setCell (Board (h a)) (cursorY m) (cursorX m) (playerSymbol m) = Some sb
          \<and> settle ((h a)\<lparr>Board := sb\<rparr>) (playerSymbol m) = Some s'
          \<and> m' = m\<lparr>board := b1\<rparr> \<and> h' = h(a := s'))"
proof (cases "winner m \<noteq> Empty \<or> \<not> isMyTurn m")
  case True
  then have "onPlace m h = Some (m, h, NoCmd)"
    using assms(2) by (auto simp: onPlace_def)
  with assms(1) show ?thesis by simp
next
  case False
  then have guards: "winner m = Empty" "isMyTurn m" by auto
  show ?thesis
  proof (cases "cellAt (board m) (cursorY m) (cursorX m)")
    case None
    with assms guards show ?thesis by (simp add: onPlace_def)
  next
    case (Some cc)
    show ?thesis
    proof (cases "cc \<noteq> Empty")
      case True
      with assms guards Some show ?thesis by (simp add: onPlace_def)
    next
      case False
      with assms guards Some
      have "Option.bind (setCell (board m) (cursorY m) (cursorX m) (playerSymbol m)) (\<lambda>b1.
              Option.bind (setCell (Board (h a)) (cursorY m) (cursorX m) (playerSymbol m)) (\<lambda>sb.
              Option.bind (settle ((h a)\<lparr>Board := sb\<rparr>) (playerSymbol m)) (\<lambda>s'.
                Some (m\<lparr>board := b1\<rparr>, h(a := s'), NoCmd)))) = Some (m', h', c)"
        by (simp add: onPlace_def)
      then show ?thesis
        by (auto simp: Option.bind_eq_Some_conv)
    qed
  qed
qed

lemma keeps_onPlace:
  assumes "onPlace m h = Some (m', h', c)" "gameSession m = Some a"
  shows "keeps a m h m' h'"
proof (cases "m' = m \<and> h' = h")
  case True
  then show ?thesis by (simp add: keeps_refl)
next
  case False
  with onPlace_cases[OF assms] obtain b1 sb s' where
    b1: "setCell (board m) (cursorY m) (cursorX m) (playerSymbol m) = Some b1"
    and sb: "setCell (Board (h a)) (cursorY m) (cursorX m) (playerSymbol m) = Some sb"
    and s': "settle ((h a)\<lparr>Board := sb\<rparr>) (playerSymbol m) = Some s'"
    and m': "m' = m\<lparr>board := b1\<rparr>" and h': "h' = h(a := s')"
    by blast
  note sf = settle_fields[OF s']
  have marks: "marksOK (board m') \<and> marksOK (Board (h' a))"
    if "playerSymbol m = PlayerX \<or> playerSymbol m = PlayerO" "marksOK (board m)"
      "marksOK (Board (h a))"
    using that marksOK_setCell[OF _ _ b1] marksOK_setCell[OF _ _ sb] sf(1) m' h'
    by auto
  have shape: "inRange m' \<and> is3x3 (Board (h' a))" if "inRange m" "is3x3 (Board (h a))"
    using that setCell_3x3[OF _ b1] setCell_3x3[OF _ sb] sf(1) m' h'
    by (auto simp: inRange_def)
  have pc: "PlayerCount (h' a) = PlayerCount (h a)" using sf(2) h' by simp
  have cp: "CurrentPlayer (h a) = 0 \<or> CurrentPlayer (h a) = 1 \<longrightarrow>
          CurrentPlayer (h' a) = 0 \<or> CurrentPlayer (h' a) = 1"
    using sf(3) h' by simp
  have fr: "\<forall>b. b \<noteq> a \<longrightarrow> h' b = h b" using h' by simp
  have idn: "gameSession m' = gameSession m \<and> playerSymbol m' = playerSymbol m"
    using m' by simp
  show ?thesis
    unfolding keeps_def using idn fr pc cp marks shape by blast
qed

lemma onPlace_total:
  assumes "gameSession m = Some a" "inRange m" "is3x3 (Board (h a))"
  shows "onPlace m h \<noteq> None"
proof -
  from assms(2) obtain c where c: "cellAt (board m) (cursorY m) (cursorX m) = Some c"
    by (auto simp: inRange_def is3x3_def cellAt_def idx_def list_all_length
        Option.bind_eq_Some_conv)
  from assms(2) have sh: "is3x3 (board m)" by (simp add: inRange_def)
  from setCell_defined[OF sh sh c]
  obtain b1 where b1: "setCell (board m) (cursorY m) (cursorX m) (playerSymbol m) = Some b1"
    by blast
  from setCell_defined[OF assms(3) sh c]
  obtain sb where sb: "setCell (Board (h a)) (cursorY m) (cursorX m) (playerSymbol m) = Some sb"
    by blast
  from checkWinner_defined[OF setCell_3x3[OF assms(3) sb]]
  obtain cells where "checkWinner sb (playerSymbol m) = Some cells" by blast
  then show ?thesis
    using assms(1) c b1 sb by (simp add: onPlace_def settle_def)
qed

lemma keeps_onKey:
  assumes "onKey k m h = Some (m', h', c)" "gameSession m = Some a"
  shows "keeps a m h m' h'"
proof -
  consider (quit) "m' = m" "h' = h"
    | (up) "m' = onUp m" "h' = h"
    | (down) "onDown m = Some m'" "h' = h"
    | (right) "onRight m = Some m'" "h' = h"
    | (left) "m' = onLeft m" "h' = h"
    | (restart) "onRestart m h = (m', h', c)"
    | (place) "onPlace m h = Some (m', h', c)"
    using assms(1) by (auto simp: onKey_def split: if_splits)
  then show ?thesis
  proof cases
    case quit then show ?thesis by (simp add: keeps_refl)
  next
    case up then show ?thesis by (simp add: keeps_onUp)
  next
    case down then show ?thesis by (simp add: keeps_onDown)
  next
    case right then show ?thesis by (simp add: keeps_onRight)
  next
    case left then show ?thesis by (simp add: keeps_onLeft)
  next
    case restart then show ?thesis using assms(2) by (rule keeps_onRestart)
  next
    case place then show ?thesis using assms(2) by (rule keeps_onPlace)
  qed
qed

lemma keeps_Update:
  assumes "Update ms m h = Some (m', h', c)" "gameSession m = Some a"
  shows "keeps a m h m' h'"
  using assms keeps_onTick keeps_onKey keeps_refl
  by (cases ms) (auto simp: Update_def)

lemma onKey_total:
  assumes "gameSession m = Some a" "inRange m" "is3x3 (Board (h a))"
  shows "onKey k m h \<noteq> None"
  using onDown_total[OF assms(2)] onRight_total[OF assms(2)] onPlace_total[of m a h] assms
  by (cases "onRestart m h") (auto simp: onKey_def)

lemma Update_total:
  assumes "gameSession m = Some a" "inRange m" "is3x3 (Board (h a))"
  shows "Update ms m h \<noteq> None"
proof (cases ms)
  case (TickMsg now)
  then show ?thesis using assms(1) by (simp add: Update_def onTick_def Let_def)
next
  case (KeyMsg k)
  then show ?thesis
    using onKey_total[of m a h k] assms by (simp add: Update_def)
next
  case OtherMsg
  then show ?thesis by (simp add: Update_def)
qed

section \<open>The invariants hold along every run\<close>

lemma world0_ok: "wellPaired world0 \<and> wellFormed world0"
  by (simp add: wellPaired_def wellFormed_def world0_def zeroSession_def marksOK_def)

lemma inRange_initial: "inRange (initialModel\<lparr>playerSymbol := p, isMyTurn := t,
                            waitingForPlayer := wt, gameSession := g\<rparr>)"
  by (simp add: inRange_def initialModel_def)

lemma marks_initial: "marksOK (board (initialModel\<lparr>playerSymbol := p, isMyTurn := t,
                            waitingForPlayer := wt, gameSession := g\<rparr>))"
  by (simp add: initialModel_def)

lemma connect_paired:
  assumes "wellPaired w" "step Connect w = Some w'"
  shows "wellPaired w'"
proof (cases "even (length (views w))")
  case True
  with assms(1) have wt: "waitingSession w = None"
    and al: "allocated w = length (views w) div 2"
    by (auto simp: wellPaired_def)
  from assms(2) wt have w': "w' = w\<lparr>sessions := (sessions w)(allocated w :=
          zeroSession\<lparr>Board := createEmptyBoard, CurrentPlayer := 0, PlayerCount := 1\<rparr>),
        allocated := Suc (allocated w), waitingSession := Some (allocated w),
        views := views w @ [initialModel\<lparr>playerSymbol := PlayerX, isMyTurn := True,
                            waitingForPlayer := True, gameSession := Some (allocated w)\<rparr>]\<rparr>"
    by (auto simp: handleSSHSession_def Let_def)
  have v: "\<forall>i < length (views w').
        gameSession (views w' ! i) = Some (i div 2)
        \<and> playerSymbol (views w' ! i) = (if even i then PlayerX else PlayerO)"
    using assms(1) True al unfolding w' wellPaired_def
    by (auto simp: nth_append less_Suc_eq)
  have p: "\<forall>a < allocated w'.
          PlayerCount (sessions w' a) = (if 2 * a + 1 < length (views w') then 2 else 1)"
  proof (intro allI impI)
    fix a assume "a < allocated w'"
    then have "a < Suc (allocated w)" unfolding w' by simp
    then consider "a = allocated w" | "a < allocated w" by linarith
    then show "PlayerCount (sessions w' a) = (if 2 * a + 1 < length (views w') then 2 else 1)"
    proof cases
      case 1
      then show ?thesis using al True unfolding w' by auto
    next
      case 2
      then have "PlayerCount (sessions w a) = (if 2 * a + 1 < length (views w) then 2 else 1)"
        using assms(1) by (simp add: wellPaired_def)
      moreover have "2 * a + 1 < length (views w) \<longleftrightarrow> 2 * a + 1 < Suc (length (views w))"
        using True by presburger
      ultimately show ?thesis using 2 unfolding w' by auto
    qed
  qed
  have rest: "waitingSession w' = (if even (length (views w')) then None
                             else Some (length (views w') div 2))
     \<and> allocated w' = (length (views w') + 1) div 2"
    using True al unfolding w' by auto
  show ?thesis unfolding wellPaired_def using v p rest by blast
next
  case False
  with assms(1) have wt: "waitingSession w = Some (length (views w) div 2)"
    and al: "allocated w = (length (views w) + 1) div 2"
    by (auto simp: wellPaired_def)
  let ?a = "length (views w) div 2"
  from assms(2) wt have w': "w' = w\<lparr>sessions := (sessions w)(?a := (sessions w ?a)\<lparr>PlayerCount := 2\<rparr>),
        waitingSession := None,
        views := views w @ [initialModel\<lparr>playerSymbol := PlayerO, isMyTurn := False,
                            waitingForPlayer := False, gameSession := Some ?a\<rparr>]\<rparr>"
    by (auto simp: handleSSHSession_def Let_def)
  have v: "\<forall>i < length (views w').
        gameSession (views w' ! i) = Some (i div 2)
        \<and> playerSymbol (views w' ! i) = (if even i then PlayerX else PlayerO)"
    using assms(1) False unfolding w' wellPaired_def
    by (auto simp: nth_append less_Suc_eq)
  have p: "\<forall>a < allocated w'.
          PlayerCount (sessions w' a) = (if 2 * a + 1 < length (views w') then 2 else 1)"
  proof (intro allI impI)
    fix a assume a: "a < allocated w'"
    show "PlayerCount (sessions w' a) = (if 2 * a + 1 < length (views w') then 2 else 1)"
    proof (cases "a = ?a")
      case True
      moreover have "2 * ?a + 1 < Suc (length (views w))" using False by presburger
      ultimately show ?thesis unfolding w' by auto
    next
      case ne: False
      from a have "a < allocated w" unfolding w' by simp
      then have "PlayerCount (sessions w a) = (if 2 * a + 1 < length (views w) then 2 else 1)"
        using assms(1) by (simp add: wellPaired_def)
      moreover have "2 * a + 1 < length (views w) \<longleftrightarrow> 2 * a + 1 < Suc (length (views w))"
        using False ne by presburger
      ultimately show ?thesis using ne unfolding w' by auto
    qed
  qed
  have rest: "waitingSession w' = (if even (length (views w')) then None
                             else Some (length (views w') div 2))
     \<and> allocated w' = (length (views w') + 1) div 2"
    using False al unfolding w' by auto
  show ?thesis unfolding wellPaired_def using v p rest by blast
qed

lemma connect_formed:
  assumes "wellPaired w" "wellFormed w" "step Connect w = Some w'"
  shows "wellFormed w'"
proof (cases "waitingSession w")
  case None
  from assms(3) None have w': "w' = w\<lparr>sessions := (sessions w)(allocated w :=
          zeroSession\<lparr>Board := createEmptyBoard, CurrentPlayer := 0, PlayerCount := 1\<rparr>),
        allocated := Suc (allocated w), waitingSession := Some (allocated w),
        views := views w @ [initialModel\<lparr>playerSymbol := PlayerX, isMyTurn := True,
                            waitingForPlayer := True, gameSession := Some (allocated w)\<rparr>]\<rparr>"
    by (auto simp: handleSSHSession_def Let_def)
  show ?thesis
    using assms(2) unfolding w' wellFormed_def
    by (auto simp: inRange_def initialModel_def zeroSession_def less_Suc_eq)
next
  case (Some a)
  from assms(3) Some have w': "w' = w\<lparr>sessions := (sessions w)(a := (sessions w a)\<lparr>PlayerCount := 2\<rparr>),
        waitingSession := None,
        views := views w @ [initialModel\<lparr>playerSymbol := PlayerO, isMyTurn := False,
                            waitingForPlayer := False, gameSession := Some a\<rparr>]\<rparr>"
    by (auto simp: handleSSHSession_def Let_def)
  show ?thesis
    using assms(2) unfolding w' wellFormed_def
    by (auto simp: inRange_def initialModel_def)
qed

lemma view_session_allocated:
  assumes "wellPaired w" "i < length (views w)"
  shows "gameSession (views w ! i) = Some (i div 2)" "i div 2 < allocated w"
    "playerSymbol (views w ! i) = PlayerX \<or> playerSymbol (views w ! i) = PlayerO"
  using assms by (auto simp: wellPaired_def)

lemma keeps_paired:
  assumes "wellPaired w" "i < length (views w)"
    and k: "keeps (i div 2) (views w ! i) (sessions w) m' h'"
    and w': "sessions w' = h'" "views w' = (views w)[i := m']" "allocated w' = allocated w"
      "waitingSession w' = waitingSession w"
  shows "wellPaired w'"
proof -
  from k have idn: "gameSession m' = gameSession (views w ! i)"
      "playerSymbol m' = playerSymbol (views w ! i)"
    and pc: "\<forall>b. PlayerCount (h' b) = PlayerCount (sessions w b)"
    unfolding keeps_def by metis+
  have same: "gameSession ((views w)[i := m'] ! j) = gameSession (views w ! j)
       \<and> playerSymbol ((views w)[i := m'] ! j) = playerSymbol (views w ! j)"
    if "j < length (views w)" for j
    using that idn by (cases "j = i") simp_all
  show ?thesis
    using assms(1) pc same unfolding wellPaired_def w' by simp
qed

lemma keeps_formed:
  assumes "wellPaired w" "wellFormed w" "i < length (views w)"
    and k: "keeps (i div 2) (views w ! i) (sessions w) m' h'"
    and w': "sessions w' = h'" "views w' = (views w)[i := m']" "allocated w' = allocated w"
  shows "wellFormed w'"
proof -
  let ?m = "views w ! i" and ?h = "sessions w" and ?a = "i div 2"
  note va = view_session_allocated[OF assms(1) assms(3)]
  have mem: "?m \<in> set (views w)" using assms(3) by simp
  from assms(2) mem have old: "marksOK (board ?m)" "inRange ?m" "marksOK (Board (?h ?a))"
    "is3x3 (Board (?h ?a))" "CurrentPlayer (?h ?a) = 0 \<or> CurrentPlayer (?h ?a) = 1"
    using va(2) by (auto simp: wellFormed_def)
  from k old va(3) have new: "marksOK (board m')" "inRange m'" "marksOK (Board (h' ?a))"
    "is3x3 (Board (h' ?a))" "CurrentPlayer (h' ?a) = 0 \<or> CurrentPlayer (h' ?a) = 1"
    and fr: "\<forall>b. b \<noteq> ?a \<longrightarrow> h' b = ?h b"
    unfolding keeps_def by blast+
  have s1: "\<forall>a. marksOK (Board (h' a))"
    using assms(2) new(3) fr by (metis wellFormed_def)
  have s2: "\<forall>a. CurrentPlayer (h' a) = 0 \<or> CurrentPlayer (h' a) = 1"
    using assms(2) new(5) fr by (metis wellFormed_def)
  have s3: "\<forall>a < allocated w. is3x3 (Board (h' a))"
    using assms(2) new(4) fr by (metis wellFormed_def)
  have s4: "\<forall>v \<in> set ((views w)[i := m']). marksOK (board v) \<and> inRange v"
    using assms(2) new(1,2) set_update_subset_insert[of "views w" i m']
    unfolding wellFormed_def by blast
  show ?thesis
    unfolding wellFormed_def w' using s1 s2 s3 s4 by simp
qed

lemma deliver_keeps:
  assumes "wellPaired w" "i < length (views w)" "i \<notin> set (raising w)"
    "step (Deliver i ms) w = Some w'"
  shows "\<exists>m' h' c. Update ms (views w ! i) (sessions w) = Some (m', h', c)
           \<and> w' = w\<lparr>sessions := h', views := (views w)[i := m']\<rparr>
           \<and> keeps (i div 2) (views w ! i) (sessions w) m' h'"
proof -
  from assms(2,3,4) obtain m' h' c where
    u: "Update ms (views w ! i) (sessions w) = Some (m', h', c)"
    and w': "w' = w\<lparr>sessions := h', views := (views w)[i := m']\<rparr>"
    by auto
  from keeps_Update[OF u view_session_allocated(1)[OF assms(1,2)]] u w'
  show ?thesis by blast
qed

lemma deliver_ok:
  assumes "wellPaired w" "wellFormed w" "step (Deliver i ms) w = Some w'"
  shows "wellPaired w' \<and> wellFormed w'"
proof (cases "i < length (views w) \<and> i \<notin> set (raising w)")
  case False
  with assms show ?thesis by auto
next
  case True
  then have i: "i < length (views w)" and nr: "i \<notin> set (raising w)" by simp_all
  from deliver_keeps[OF assms(1) i nr assms(3)] obtain m' h' c where
    w': "w' = w\<lparr>sessions := h', views := (views w)[i := m']\<rparr>"
    and k: "keeps (i div 2) (views w ! i) (sessions w) m' h'"
    by blast
  have "wellPaired w'"
    using keeps_paired[OF assms(1) i k, of w'] by (simp add: w')
  moreover have "wellFormed w'"
    using keeps_formed[OF assms(1,2) i k, of w'] by (simp add: w')
  ultimately show ?thesis by simp
qed

lemma keeps_resetGame:
  assumes "resetGame m h = (m', h')" "gameSession m = Some a"
  shows "keeps a m h m' h'"
proof -
  have "onRestart m h = (m', raiseRestart m' h', ClearScreen)"
    using assms(1) by (simp add: onRestart_def)
  from keeps_onRestart[OF this assms(2)] have k: "keeps a m h m' (raiseRestart m' h')" .
  then have g: "gameSession m' = Some a" using assms(2) by (simp add: keeps_def)
  have r: "raiseRestart m' h' = h'(a := (h' a)\<lparr>RestartRequested := True\<rparr>)"
    using g by (simp add: raiseRestart_def)
  show ?thesis
    using k unfolding keeps_def r by (auto split: if_splits)
qed

lemma keeps_raiseRestart:
  assumes "gameSession m = Some a"
  shows "keeps a m h m (raiseRestart m h)"
  using assms by (simp add: keeps_def raiseRestart_def)

lemma begin_ok:
  assumes "wellPaired w" "wellFormed w" "step (BeginRestart i) w = Some w'"
  shows "wellPaired w' \<and> wellFormed w'"
proof (cases "i < length (views w) \<and> i \<notin> set (raising w)")
  case False
  with assms show ?thesis by auto
next
  case True
  then have i: "i < length (views w)" by simp
  obtain m1 h1 where r: "resetGame (views w ! i) (sessions w) = (m1, h1)"
    by (cases "resetGame (views w ! i) (sessions w)")
  from assms(3) True r
  have w': "w' = w\<lparr>sessions := h1, views := (views w)[i := m1], raising := i # raising w\<rparr>"
    by simp
  note k = keeps_resetGame[OF r view_session_allocated(1)[OF assms(1) i]]
  have "wellPaired w'"
    using keeps_paired[OF assms(1) i k, of w'] by (simp add: w')
  moreover have "wellFormed w'"
    using keeps_formed[OF assms(1,2) i k, of w'] by (simp add: w')
  ultimately show ?thesis by simp
qed

lemma end_ok:
  assumes "wellPaired w" "wellFormed w" "step (EndRestart i) w = Some w'"
  shows "wellPaired w' \<and> wellFormed w'"
proof (cases "i < length (views w) \<and> i \<in> set (raising w)")
  case False
  with assms show ?thesis by auto
next
  case True
  then have i: "i < length (views w)" by simp
  from assms(3) True
  have w': "w' = w\<lparr>sessions := raiseRestart (views w ! i) (sessions w),
                   raising := removeAll i (raising w)\<rparr>"
    by simp
  note k = keeps_raiseRestart[OF view_session_allocated(1)[OF assms(1) i], of "sessions w"]
  have "wellPaired w'"
    using keeps_paired[OF assms(1) i k, of w'] by (simp add: w')
  moreover have "wellFormed w'"
    using keeps_formed[OF assms(1,2) i k, of w'] by (simp add: w')
  ultimately show ?thesis by simp
qed

lemma closed_ok:
  assumes "wellPaired w" "wellFormed w" "step (Closed i) w = Some w'"
  shows "wellPaired w' \<and> wellFormed w'"
proof (cases "i < length (views w)")
  case False
  with assms show ?thesis by simp
next
  case True
  from assms(3) True view_session_allocated(1)[OF assms(1) True]
  have w': "w' = w\<lparr>sessions := (sessions w)(i div 2 :=
                     (sessions w (i div 2))\<lparr>PlayerDisconnected := True\<rparr>)\<rparr>"
    by (simp add: markDisconnected_def)
  show ?thesis
    using assms(1,2) unfolding w' wellPaired_def wellFormed_def by simp
qed

lemma step_ok:
  assumes "wellPaired w \<and> wellFormed w" "step e w = Some w'"
  shows "wellPaired w' \<and> wellFormed w'"
proof (cases e)
  case Connect
  with assms connect_paired connect_formed show ?thesis by blast
next
  case (Deliver i ms)
  with assms deliver_ok show ?thesis by blast
next
  case (Closed i)
  with assms closed_ok show ?thesis by blast
next
  case (BeginRestart i)
  with assms begin_ok show ?thesis by blast
next
  case (EndRestart i)
  with assms end_ok show ?thesis by blast
qed

lemma run_ok:
  assumes "wellPaired w \<and> wellFormed w" "run es w = Some w'"
  shows "wellPaired w' \<and> wellFormed w'"
  using assms
proof (induction es arbitrary: w)
  case Nil
  then show ?case by simp
next
  case (Cons e es)
  from Cons.prems(2) obtain w1 where s: "step e w = Some w1" and r: "run es w1 = Some w'"
    by (auto simp: Option.bind_eq_Some_conv)
  from Cons.IH[OF step_ok[OF Cons.prems(1) s] r] show ?case .
qed

lemma reachable_ok:
  assumes "run es world0 = Some w"
  shows "wellPaired w" "wellFormed w"
  using run_ok[OF world0_ok assms] by simp_all

lemma step_total:
  assumes "wellPaired w" "wellFormed w"
  shows "step e w \<noteq> None"
proof (cases e)
  case Connect
  then show ?thesis by (simp split: prod.splits)
next
  case (Deliver i ms)
  show ?thesis
  proof (cases "i < length (views w) \<and> i \<notin> set (raising w)")
    case True
    then have i: "i < length (views w)" by simp
    note va = view_session_allocated[OF assms(1) i]
    have "inRange (views w ! i)" "is3x3 (Board (sessions w (i div 2)))"
      using assms(2) i va(2) by (auto simp: wellFormed_def)
    with Update_total[of "views w ! i" "i div 2" "sessions w" ms] va(1) show ?thesis
      using Deliver True by simp
  next
    case False
    with Deliver show ?thesis by auto
  qed
next
  case (Closed i)
  then show ?thesis by simp
next
  case (BeginRestart i)
  then show ?thesis by (simp split: prod.splits)
next
  case (EndRestart i)
  then show ?thesis by simp
qed

lemma run_total:
  assumes "wellPaired w \<and> wellFormed w"
  shows "run es w \<noteq> None"
  using assms
proof (induction es arbitrary: w)
  case Nil
  then show ?case by simp
next
  case (Cons e es)
  from step_total[of w e] Cons.prems obtain w1 where s: "step e w = Some w1" by auto
  from Cons.IH[OF step_ok[OF Cons.prems s]] s show ?case by simp
qed

text \<open>No run of the server from its start panics.\<close>

lemma server_never_panics: "run es world0 \<noteq> None"
  using run_total[OF world0_ok] .

section \<open>Pairing\<close>

lemma connect_effect:
  assumes "wellPaired w" "step Connect w = Some w'"
  shows "(\<exists>m. views w' = views w @ [m])
       \<and> (even (length (views w)) \<longrightarrow>
            sessions w' = (sessions w)(length (views w) div 2 :=
               zeroSession\<lparr>Board := createEmptyBoard, CurrentPlayer := 0, PlayerCount := 1\<rparr>))
       \<and> (odd (length (views w)) \<longrightarrow>
            sessions w' = (sessions w)(length (views w) div 2 :=
               (sessions w (length (views w) div 2))\<lparr>PlayerCount := 2\<rparr>))"
proof (cases "even (length (views w))")
  case True
  with assms(1) have "waitingSession w = None" "allocated w = length (views w) div 2"
    by (auto simp: wellPaired_def)
  with assms(2) True show ?thesis
    by (auto simp: handleSSHSession_def Let_def)
next
  case False
  with assms(1) have "waitingSession w = Some (length (views w) div 2)"
    by (auto simp: wellPaired_def)
  with assms(2) False show ?thesis
    by (auto simp: handleSSHSession_def Let_def)
qed

text \<open>
  Claim C6. In every state that a run of the server reaches from its start: the
  connection number \<open>i\<close> (counted from 0) holds the session at address \<open>i div 2\<close> and
  plays X when \<open>i\<close> is even, O when \<open>i\<close> is odd, so the first call pairs as X on
  session 0, the second as O on the same session, the third as X on session 1, and no
  session is ever held by a third connection. A session waits exactly when the number of
  connections is odd, and it is the session of the last connection. The player count of
  a session is 1 until its second connection arrives and 2 from then on. The next
  connection is appended to the connections; when their number is even it gets a new
  session (empty board, turn 0, player count 1) at the next address, else only the
  player count of the waiting session changes, to 2.
\<close>

theorem pairing_sequence:
  assumes "run es world0 = Some w"
  shows "(\<forall>i < length (views w).
            gameSession (views w ! i) = Some (i div 2)
            \<and> playerSymbol (views w ! i) = (if even i then PlayerX else PlayerO))
       \<and> waitingSession w = (if even (length (views w)) then None
                               else Some (length (views w) div 2))
       \<and> (\<forall>a < (length (views w) + 1) div 2.
            PlayerCount (sessions w a) = (if 2 * a + 1 < length (views w) then 2 else 1))
       \<and> (\<forall>w'. step Connect w = Some w' \<longrightarrow>
            (\<exists>m. views w' = views w @ [m])
            \<and> (even (length (views w)) \<longrightarrow>
                 sessions w' = (sessions w)(length (views w) div 2 :=
                   zeroSession\<lparr>Board := createEmptyBoard, CurrentPlayer := 0, PlayerCount := 1\<rparr>))
            \<and> (odd (length (views w)) \<longrightarrow>
                 sessions w' = (sessions w)(length (views w) div 2 :=
                   (sessions w (length (views w) div 2))\<lparr>PlayerCount := 2\<rparr>)))"
proof -
  note wp = reachable_ok(1)[OF assms]
  have a: "\<forall>i < length (views w).
            gameSession (views w ! i) = Some (i div 2)
            \<and> playerSymbol (views w ! i) = (if even i then PlayerX else PlayerO)"
    using wp by (simp add: wellPaired_def)
  have b: "waitingSession w = (if even (length (views w)) then None
                               else Some (length (views w) div 2))"
    using wp by (simp add: wellPaired_def)
  have c: "\<forall>a < (length (views w) + 1) div 2.
            PlayerCount (sessions w a) = (if 2 * a + 1 < length (views w) then 2 else 1)"
    using wp by (simp add: wellPaired_def)
  show ?thesis
    using a b c connect_effect[OF wp] by blast
qed

theorem pairing_sequence_witness:
  "\<exists>w. run [Connect, Connect, Connect] world0 = Some w
       \<and> map playerSymbol (views w) = [PlayerX, PlayerO, PlayerX]
       \<and> map gameSession (views w) = [Some 0, Some 0, Some 1]
       \<and> waitingSession w = Some 1
       \<and> PlayerCount (sessions w 0) = 2 \<and> PlayerCount (sessions w 1) = 1"
proof -
  define es where "es = [Connect, Connect, Connect]"
  have "map_option (\<lambda>w. length (views w)) (run es world0) = Some 3"
    unfolding es_def by code_simp
  from this[unfolded map_option_eq_Some]
  obtain w where r: "run es world0 = Some w" and len: "length (views w) = 3"
    by blast
  from len obtain v0 v1 v2 where vs: "views w = [v0, v1, v2]"
    by (auto simp: length_Suc_conv numeral_3_eq_3)
  note p = pairing_sequence[OF r]
  note p1 = p[THEN conjunct1, rule_format]
  note p2 = p[THEN conjunct2, THEN conjunct1]
  note p3 = p[THEN conjunct2, THEN conjunct2, THEN conjunct1, rule_format]
  from p1[of 0] p1[of 1] p1[of 2] vs
  have "map playerSymbol (views w) = [PlayerX, PlayerO, PlayerX]
       \<and> map gameSession (views w) = [Some 0, Some 0, Some 1]"
    by simp
  moreover from p2 len have "waitingSession w = Some 1" by simp
  moreover from p3[of 0] p3[of 1] len
  have "PlayerCount (sessions w 0) = 2 \<and> PlayerCount (sessions w 1) = 1"
    by simp
  ultimately have "run es world0 = Some w
       \<and> map playerSymbol (views w) = [PlayerX, PlayerO, PlayerX]
       \<and> map gameSession (views w) = [Some 0, Some 0, Some 1]
       \<and> waitingSession w = Some 1
       \<and> PlayerCount (sessions w 0) = 2 \<and> PlayerCount (sessions w 1) = 1"
    using r by blast
  then show ?thesis unfolding es_def by (rule exI)
qed


section \<open>Marks on the board\<close>

lemma place_writes_symbol:
  assumes "onPlace m h = Some (m', h', c)" "gameSession m = Some a"
  shows "cellAt (Board (h' b)) y x = cellAt (Board (h b)) y x
         \<or> cellAt (Board (h' b)) y x = Some (playerSymbol m)"
proof (cases "m' = m \<and> h' = h")
  case True
  then show ?thesis by simp
next
  case False
  with onPlace_cases[OF assms] obtain b1 sb s' where
    sb: "setCell (Board (h a)) (cursorY m) (cursorX m) (playerSymbol m) = Some sb"
    and s': "settle ((h a)\<lparr>Board := sb\<rparr>) (playerSymbol m) = Some s'"
    and h': "h' = h(a := s')"
    by blast
  have bs: "Board s' = sb" using settle_fields(1)[OF s'] by simp
  show ?thesis
  proof (cases "b = a")
    case True
    then show ?thesis using h' bs cellAt_setCell[OF sb, of y x] by auto
  next
    case False
    then show ?thesis using h' by simp
  qed
qed

lemma enter_is_place:
  "Update (KeyMsg ''enter'') m h = onPlace m h"
  "Update (KeyMsg '' '') m h = onPlace m h"
  by (simp_all add: Update_def onKey_def)

text \<open>
  Claim C10. In every state that a run of the server reaches: every cell of the board
  of every session, and of the board of every model, is empty, X or O; the connection
  number \<open>i\<close> has the symbol X when \<open>i\<close> is even and O when it is odd, in every
  state, whatever has happened since the pairing; and a placement key of connection
  \<open>i\<close> keeps that symbol and leaves every cell of every session board as it was or
  holding the symbol of connection \<open>i\<close>. Nothing is assumed on \<open>CurrentPlayer\<close>.
\<close>

theorem placements_write_own_symbol:
  assumes "run es world0 = Some w"
  shows "(\<forall>a. marksOK (Board (sessions w a)))
       \<and> (\<forall>i < length (views w).
            playerSymbol (views w ! i) = (if even i then PlayerX else PlayerO)
            \<and> marksOK (board (views w ! i))
            \<and> (\<forall>k w'. (k = ''enter'' \<or> k = '' '') \<longrightarrow>
                  step (Deliver i (KeyMsg k)) w = Some w' \<longrightarrow>
                  playerSymbol (views w' ! i) = playerSymbol (views w ! i)
                  \<and> (\<forall>a y x. cellAt (Board (sessions w' a)) y x
                                = cellAt (Board (sessions w a)) y x
                              \<or> cellAt (Board (sessions w' a)) y x
                                = Some (playerSymbol (views w ! i)))))"
proof (rule conjI)
  note wf = reachable_ok(2)[OF assms]
  show "\<forall>a. marksOK (Board (sessions w a))"
    using wf by (simp add: wellFormed_def)
next
  note wp = reachable_ok(1)[OF assms] and wf = reachable_ok(2)[OF assms]
  show "\<forall>i < length (views w).
            playerSymbol (views w ! i) = (if even i then PlayerX else PlayerO)
            \<and> marksOK (board (views w ! i))
            \<and> (\<forall>k w'. (k = ''enter'' \<or> k = '' '') \<longrightarrow>
                  step (Deliver i (KeyMsg k)) w = Some w' \<longrightarrow>
                  playerSymbol (views w' ! i) = playerSymbol (views w ! i)
                  \<and> (\<forall>a y x. cellAt (Board (sessions w' a)) y x
                                = cellAt (Board (sessions w a)) y x
                              \<or> cellAt (Board (sessions w' a)) y x
                                = Some (playerSymbol (views w ! i))))"
  proof (intro allI impI)
    fix i assume i: "i < length (views w)"
    have p1: "playerSymbol (views w ! i) = (if even i then PlayerX else PlayerO)"
      using wp i by (simp add: wellPaired_def)
    have p2: "marksOK (board (views w ! i))"
      using wf i by (simp add: wellFormed_def)
    have p3: "\<forall>k w'. (k = ''enter'' \<or> k = '' '') \<longrightarrow>
                  step (Deliver i (KeyMsg k)) w = Some w' \<longrightarrow>
                  playerSymbol (views w' ! i) = playerSymbol (views w ! i)
                  \<and> (\<forall>a y x. cellAt (Board (sessions w' a)) y x
                                = cellAt (Board (sessions w a)) y x
                              \<or> cellAt (Board (sessions w' a)) y x
                                = Some (playerSymbol (views w ! i)))"
    proof (intro allI impI)
      fix k w'
      assume k: "k = ''enter'' \<or> k = '' ''" and st: "step (Deliver i (KeyMsg k)) w = Some w'"
      show "playerSymbol (views w' ! i) = playerSymbol (views w ! i)
                  \<and> (\<forall>a y x. cellAt (Board (sessions w' a)) y x
                                = cellAt (Board (sessions w a)) y x
                              \<or> cellAt (Board (sessions w' a)) y x
                                = Some (playerSymbol (views w ! i)))"
      proof (cases "i \<in> set (raising w)")
        case True
        with st have "w' = w" by simp
        then show ?thesis by simp
      next
        case nr: False
      from deliver_keeps[OF wp i nr st] obtain m' h' c where
        u: "Update (KeyMsg k) (views w ! i) (sessions w) = Some (m', h', c)"
        and w': "w' = w\<lparr>sessions := h', views := (views w)[i := m']\<rparr>"
        and kp: "keeps (i div 2) (views w ! i) (sessions w) m' h'"
        by blast
      from k have "Update (KeyMsg k) (views w ! i) (sessions w) = onPlace (views w ! i) (sessions w)"
        by (rule disjE) (simp_all only: enter_is_place)
      with u have pl: "onPlace (views w ! i) (sessions w) = Some (m', h', c)"
        by simp
      have gs: "gameSession (views w ! i) = Some (i div 2)"
        using view_session_allocated(1)[OF wp i] .
      have ps: "playerSymbol m' = playerSymbol (views w ! i)"
        using kp by (simp add: keeps_def)
      have c1: "playerSymbol (views w' ! i) = playerSymbol (views w ! i)"
        using ps i unfolding w' by simp
      have c2: "\<forall>a y x. cellAt (Board (sessions w' a)) y x
                                = cellAt (Board (sessions w a)) y x
                              \<or> cellAt (Board (sessions w' a)) y x
                                = Some (playerSymbol (views w ! i))"
      proof (intro allI)
        fix a y x
        from place_writes_symbol[OF pl gs, of a y x]
        show "cellAt (Board (sessions w' a)) y x = cellAt (Board (sessions w a)) y x
              \<or> cellAt (Board (sessions w' a)) y x = Some (playerSymbol (views w ! i))"
          unfolding w' by simp
      qed
      from c1 c2 show ?thesis by (rule conjI)
      qed
    qed
    show "playerSymbol (views w ! i) = (if even i then PlayerX else PlayerO)
            \<and> marksOK (board (views w ! i))
            \<and> (\<forall>k w'. (k = ''enter'' \<or> k = '' '') \<longrightarrow>
                  step (Deliver i (KeyMsg k)) w = Some w' \<longrightarrow>
                  playerSymbol (views w' ! i) = playerSymbol (views w ! i)
                  \<and> (\<forall>a y x. cellAt (Board (sessions w' a)) y x
                                = cellAt (Board (sessions w a)) y x
                              \<or> cellAt (Board (sessions w' a)) y x
                                = Some (playerSymbol (views w ! i))))"
      by (rule conjI[OF p1 conjI[OF p2 p3]])
  qed
qed

theorem placements_write_own_symbol_witness:
  "\<exists>w. run [Connect, Connect, pressEnter 0, tickAt 1 1000, pressRight 1, pressEnter 1] world0
          = Some w
       \<and> Board (sessions w 0) = [[''X'', ''O'', ''''], ['''', '''', ''''], ['''', '''', '''']]
       \<and> marksOK (Board (sessions w 0))
       \<and> playerSymbol (views w ! 0) = PlayerX \<and> playerSymbol (views w ! 1) = PlayerO"
proof -
  define es where
    "es = [Connect, Connect, pressEnter 0, tickAt 1 1000, pressRight 1, pressEnter 1]"
  have "map_option (\<lambda>w. (length (views w), Board (sessions w 0))) (run es world0)
          = Some (2, [[''X'', ''O'', ''''], ['''', '''', ''''], ['''', '''', '''']])"
    unfolding es_def by code_simp
  from this[unfolded map_option_eq_Some]
  obtain w where r: "run es world0 = Some w" and len: "length (views w) = 2"
    and b: "Board (sessions w 0) = [[''X'', ''O'', ''''], ['''', '''', ''''], ['''', '''', '''']]"
    by auto
  note p = placements_write_own_symbol[OF r]
  note p1 = p[THEN conjunct1, rule_format]
  note p2 = p[THEN conjunct2, rule_format, THEN conjunct1]
  from p2[of 0] p2[of 1] len
  have "playerSymbol (views w ! 0) = PlayerX \<and> playerSymbol (views w ! 1) = PlayerO"
    by simp
  with r b p1[of 0]
  have "run es world0 = Some w
       \<and> Board (sessions w 0) = [[''X'', ''O'', ''''], ['''', '''', ''''], ['''', '''', '''']]
       \<and> marksOK (Board (sessions w 0))
       \<and> playerSymbol (views w ! 0) = PlayerX \<and> playerSymbol (views w ! 1) = PlayerO"
    by simp
  then show ?thesis unfolding es_def by (rule exI)
qed

section \<open>Placements on a stale projection\<close>

text \<open>
  The guards of the placement read the projection of the model (\<open>winner\<close>,
  \<open>isMyTurn\<close>, \<open>board\<close>), which only a tick refreshes, while the write goes to the
  session. The three evaluations below run the handlers on runs in which a model places
  between two of its ticks.
\<close>

text \<open>
  Claim C1, at the failing input. The first player places at (0,0); the turn of the
  session is then O. The first player moves the cursor and, before its next tick, places
  again: its projection still says that it is its turn, the placement is not rejected,
  and the board of the session holds X at (0,0) and at (0,1).
\<close>

theorem stale_turn_placement_is_applied:
  "map_option (\<lambda>w. (Board (sessions w 0), turnSymbol (sessions w 0),
                     playerSymbol (views w ! 0), isMyTurn (views w ! 0)))
     (run [Connect, Connect, pressEnter 0, pressRight 0] world0)
     = Some ([[''X'', '''', ''''], ['''', '''', ''''], ['''', '''', '''']], ''O'', ''X'', True)
   \<and> map_option (\<lambda>w. Board (sessions w 0))
     (run [Connect, Connect, pressEnter 0, pressRight 0, pressEnter 0] world0)
     = Some [[''X'', ''X'', ''''], ['''', '''', ''''], ['''', '''', '''']]"
  by code_simp


text \<open>
  Claim C8, at the failing input. The first player places at (0,0); the second player
  ticks and places O at (0,1); the first player, before its next tick, moves to (0,1),
  which is empty in its projection, and places: the O in the board of the session is
  overwritten with X.
\<close>

theorem stale_placement_overwrites_mark:
  "map_option (\<lambda>w. (Board (sessions w 0), board (views w ! 0), playerSymbol (views w ! 0)))
     (run [Connect, Connect, pressEnter 0, tickAt 1 1000, pressRight 1, pressEnter 1, pressRight 0]
        world0)
     = Some ([[''X'', ''O'', ''''], ['''', '''', ''''], ['''', '''', '''']],
             [[''X'', '''', ''''], ['''', '''', ''''], ['''', '''', '''']], ''X'')
   \<and> map_option (\<lambda>w. Board (sessions w 0))
     (run [Connect, Connect, pressEnter 0, tickAt 1 1000, pressRight 1, pressEnter 1, pressRight 0,
           pressEnter 0] world0)
     = Some [[''X'', ''X'', ''''], ['''', '''', ''''], ['''', '''', '''']]"
  by code_simp

text \<open>
  Claim C9, at the failing input. Both players place between their ticks until X
  completes the top row: the winner is X and the winning cells are the top row. The
  second player, whose projection still shows no winner, then fills the last cell: O has
  no line, the board is full, the winner becomes the draw, and the winning cells are
  still the top row.
\<close>

theorem draw_after_win_keeps_winning_cells:
  "map_option (\<lambda>w. (Board (sessions w 0), Winner (sessions w 0), WinningCells (sessions w 0)))
     (run [Connect, Connect, pressEnter 0, tickAt 1 1000,
           pressRight 0, pressEnter 0, pressDown 0, pressRight 0, pressEnter 0,
           pressDown 0, pressLeft 0, pressLeft 0, pressEnter 0,
           pressDown 1, pressEnter 1, pressRight 1, pressEnter 1, pressDown 1, pressEnter 1,
           pressUp 0, pressUp 0, pressRight 0, pressRight 0, pressEnter 0] world0)
     = Some ([[''X'', ''X'', ''X''], [''O'', ''O'', ''X''], [''X'', ''O'', '''']], ''X'',
             [mk 0 0, mk 0 1, mk 0 2])
   \<and> map_option (\<lambda>w. (Board (sessions w 0), Winner (sessions w 0), WinningCells (sessions w 0)))
     (run [Connect, Connect, pressEnter 0, tickAt 1 1000,
           pressRight 0, pressEnter 0, pressDown 0, pressRight 0, pressEnter 0,
           pressDown 0, pressLeft 0, pressLeft 0, pressEnter 0,
           pressDown 1, pressEnter 1, pressRight 1, pressEnter 1, pressDown 1, pressEnter 1,
           pressUp 0, pressUp 0, pressRight 0, pressRight 0, pressEnter 0,
           pressRight 1, pressEnter 1] world0)
     = Some ([[''X'', ''X'', ''X''], [''O'', ''O'', ''X''], [''X'', ''O'', ''O'']], ''draw'',
             [mk 0 0, mk 0 1, mk 0 2])"
  by code_simp

end
